theory Spec2Isabelle
  imports Main "HOL-Library.AList"
begin

section \<open>JavaScript values\<close>

text \<open>
  The session manager of \<^verbatim>\<open>src/context/AuthContext.jsx\<close> and the service helpers of
  \<^verbatim>\<open>src/services/userService.js\<close> handle untyped JavaScript values: whatever
  \<^verbatim>\<open>JSON.parse\<close> reads from local storage, whatever the HTTP API answers, whatever the
  caller passes to \<^verbatim>\<open>login\<close>. The model therefore works on a datatype of JavaScript
  values, not on a typed record of a session.

  Numbers are the integers together with \<^verbatim>\<open>NaN\<close> (time stamps are integers; fractions
  and infinities are not represented). An object is the list of its own enumerable
  properties in insertion order (JavaScript lists properties whose names are array
  indices first; the program never depends on the order). Functions, symbols and
  inherited properties are not values of the model: the program reads none. Strings are
  lists of 8-bit characters.
\<close>

datatype number = Num int | NaN

datatype jsval =
    JUndefined
  | JNull
  | JBool bool
  | JNum number
  | JStr string
  | JObj "(string \<times> jsval) list"
  | JArr "jsval list"

abbreviation JInt :: "int \<Rightarrow> jsval" where
  "JInt i \<equiv> JNum (Num i)"

text \<open>\<^verbatim>\<open>ToBoolean\<close>: what \<^verbatim>\<open>if (v)\<close>, \<^verbatim>\<open>!v\<close>, \<^verbatim>\<open>a || b\<close> and \<^verbatim>\<open>a && b\<close> test.\<close>

fun truthy :: "jsval \<Rightarrow> bool" where
  "truthy JUndefined = False"
| "truthy JNull = False"
| "truthy (JBool b) = b"
| "truthy (JNum (Num i)) = (i \<noteq> 0)"
| "truthy (JNum NaN) = False"
| "truthy (JStr s) = (s \<noteq> [])"
| "truthy (JObj kvs) = True"
| "truthy (JArr xs) = True"

fun typeof :: "jsval \<Rightarrow> string" where
  "typeof JUndefined = ''undefined''"
| "typeof JNull = ''object''"
| "typeof (JBool b) = ''boolean''"
| "typeof (JNum n) = ''number''"
| "typeof (JStr s) = ''string''"
| "typeof (JObj kvs) = ''object''"
| "typeof (JArr xs) = ''object''"

text \<open>\<^verbatim>\<open>a || b\<close> yields \<^verbatim>\<open>a\<close> when it is truthy and \<^verbatim>\<open>b\<close> otherwise.\<close>

definition js_or :: "jsval \<Rightarrow> jsval \<Rightarrow> jsval" where
  "js_or a b = (if truthy a then a else b)"

subsection \<open>Properties\<close>

text \<open>Decimal notation of an array index, the property name of an element.\<close>

fun dec_str :: "nat \<Rightarrow> string" where
  "dec_str n =
     (if n < 10 then [''0123456789'' ! n]
      else dec_str (n div 10) @ [''0123456789'' ! (n mod 10)])"

declare dec_str.simps [simp del]

definition index_props :: "jsval list \<Rightarrow> (string \<times> jsval) list" where
  "index_props xs = zip (map dec_str [0..<length xs]) xs"

text \<open>
  The own enumerable properties of a value, which object spread and a rest pattern copy:
  the properties of an object, the elements of an array, the characters of a string,
  nothing for the other primitives.
\<close>

fun own_props :: "jsval \<Rightarrow> (string \<times> jsval) list" where
  "own_props (JObj kvs) = kvs"
| "own_props (JArr xs) = index_props xs"
| "own_props (JStr s) = index_props (map (\<lambda>c. JStr [c]) s)"
| "own_props v = []"

text \<open>
  \<^verbatim>\<open>v.k\<close> for a value that is neither \<^verbatim>\<open>null\<close> nor \<^verbatim>\<open>undefined\<close> (the program reads
  a property without \<^verbatim>\<open>?.\<close> only of such values): a missing property is
  \<^verbatim>\<open>undefined\<close>.
\<close>

definition get_prop :: "jsval \<Rightarrow> string \<Rightarrow> jsval" where
  "get_prop v k =
     (case map_of (own_props v) k of
        Some x \<Rightarrow> x
      | None \<Rightarrow>
          (if k = ''length'' then
             (case v of
                JArr xs \<Rightarrow> JInt (int (length xs))
              | JStr s \<Rightarrow> JInt (int (length s))
              | _ \<Rightarrow> JUndefined)
           else JUndefined))"

text \<open>\<^verbatim>\<open>v?.k\<close>: \<^verbatim>\<open>undefined\<close> when \<^verbatim>\<open>v\<close> is \<^verbatim>\<open>null\<close> or \<^verbatim>\<open>undefined\<close>.\<close>

definition opt_prop :: "jsval \<Rightarrow> string \<Rightarrow> jsval" where
  "opt_prop v k = (if v = JNull \<or> v = JUndefined then JUndefined else get_prop v k)"

text \<open>
  \<^verbatim>\<open>obj.k = v\<close> is \<open>AList.update k v\<close>: the value is replaced in place when the
  property exists and appended otherwise. Spreading \<^verbatim>\<open>...src\<close> into an object literal
  assigns the own properties of \<^verbatim>\<open>src\<close> one after the other.
\<close>

definition copy_props :: "(string \<times> jsval) list \<Rightarrow> (string \<times> jsval) list \<Rightarrow> (string \<times> jsval) list" where
  "copy_props obj kvs = foldl (\<lambda>acc (k, v). AList.update k v acc) obj kvs"

section \<open>The service helpers (userService.js)\<close>

datatype error =
    SyntaxError
  | NetworkError
  | MissingAuthToken
  | MalformedLoginResponse

text \<open>
  The outcome of an \<^verbatim>\<open>axios\<close> call: the promise is rejected (the service is unreachable
  or answers outside 2xx), or fulfilled with a response whose \<^verbatim>\<open>data\<close> is the value
  carried here.
\<close>

datatype http_result = Rejected | Fulfilled jsval

text \<open>
  \<^verbatim>\<open>normalizeUser\<close> (userService.js, lines 29 to 51). \<open>destructured\<close> lists the names
  that its destructuring pattern takes out of \<^verbatim>\<open>raw\<close>; \<^verbatim>\<open>rest\<close> is what remains.
\<close>

definition destructured :: "string list" where
  "destructured =
     [''id'', ''_id'', ''userId'', ''username'', ''email'', ''role'', ''createdAt'', ''updatedAt'']"

definition normalizeUser :: "jsval \<Rightarrow> jsval" where
  "normalizeUser raw =
     (if \<not> truthy raw \<or> typeof raw \<noteq> ''object'' then raw
      else
        let id = get_prop raw ''id'';
            uid = get_prop raw ''_id'';
            userId = get_prop raw ''userId'';
            username = get_prop raw ''username'';
            email = get_prop raw ''email'';
            role = get_prop raw ''role'';
            createdAt = get_prop raw ''createdAt'';
            updatedAt = get_prop raw ''updatedAt'';
            rest = filter (\<lambda>(k, v). k \<notin> set destructured) (own_props raw)
        in JObj (copy_props
             [(''id'', js_or id (js_or uid (js_or userId (opt_prop (JObj rest) ''id'')))),
              (''username'', js_or username (opt_prop (JObj rest) ''username'')),
              (''email'', js_or email (opt_prop (JObj rest) ''email'')),
              (''role'', js_or role (js_or (opt_prop (JObj rest) ''role'') (JStr ''user''))),
              (''createdAt'', createdAt),
              (''updatedAt'', updatedAt)]
             rest))"

text \<open>
  \<^verbatim>\<open>loginUser\<close> (lines 54 to 68), as a function of the outcome of its POST. A rejected
  request rejects the call; the \<^verbatim>\<open>throw\<close> of the function itself is
  \<open>MalformedLoginResponse\<close>.
\<close>

definition loginUser :: "http_result \<Rightarrow> error + jsval" where
  "loginUser res =
     (case res of
        Rejected \<Rightarrow> Inl NetworkError
      | Fulfilled data \<Rightarrow>
          let token = opt_prop data ''token'';
              user = normalizeUser (opt_prop data ''user'')
          in if \<not> truthy token \<or> \<not> truthy user then Inl MalformedLoginResponse
             else Inr (JObj [(''user'', user), (''token'', token)]))"

text \<open>\<^verbatim>\<open>fetchCurrentUser\<close> (lines 84 to 91), as a function of the outcome of its GET.\<close>

definition fetchCurrentUser :: "jsval \<Rightarrow> http_result \<Rightarrow> error + jsval" where
  "fetchCurrentUser token res =
     (if \<not> truthy token then Inl MissingAuthToken
      else
        (case res of
           Rejected \<Rightarrow> Inl NetworkError
         | Fulfilled data \<Rightarrow> Inr (normalizeUser (js_or (opt_prop data ''user'') data))))"

text \<open>
  \<^verbatim>\<open>computeExpiry(ms = 60 * 60 * 1000)\<close> (lines 105 to 107), at the clock reading
  \<open>now\<close>; \<open>default_window\<close> is the default value of its parameter.
\<close>

definition computeExpiry :: "int \<Rightarrow> int \<Rightarrow> int" where
  "computeExpiry now ms = now + ms"

definition default_window :: int where
  "default_window = 60 * 60 * 1000"

section \<open>Number conversion\<close>

text \<open>
  \<^verbatim>\<open>Number(v)\<close>. A string is read, between optional (ASCII) white space, by the grammar
  of numeric string literals: the empty string is 0; a decimal literal has an optional
  sign, digits with an optional fraction, and an optional exponent; an unsigned literal
  with the prefix \<^verbatim>\<open>0x\<close>, \<^verbatim>\<open>0o\<close> or \<^verbatim>\<open>0b\<close> is read in that radix; anything else is \<open>NaN\<close>.
  The numbers of the model are the integers, taken exactly: a literal whose value is
  not an integer (\<^verbatim>\<open>"1.5"\<close>, \<^verbatim>\<open>"1e-3"\<close>) and the literal \<^verbatim>\<open>Infinity\<close> have no value in
  the model and give \<open>NaN\<close> here, and the rounding of large values to double precision
  is not modelled. An array converts through its string form: the empty array as the
  empty string, a one-element array as its element, a longer one (its string form has
  a comma) as \<open>NaN\<close>.
\<close>

definition is_ws :: "char \<Rightarrow> bool" where
  "is_ws c = (c \<in> set [CHR '' '', CHR 0x09, CHR 0x0A, CHR 0x0B, CHR 0x0C, CHR 0x0D])"

definition trim :: "string \<Rightarrow> string" where
  "trim s = rev (dropWhile is_ws (rev (dropWhile is_ws s)))"

definition digit_of :: "char \<Rightarrow> int option" where
  "digit_of c =
     map_of [(CHR ''0'', 0), (CHR ''1'', 1), (CHR ''2'', 2), (CHR ''3'', 3), (CHR ''4'', 4),
             (CHR ''5'', 5), (CHR ''6'', 6), (CHR ''7'', 7), (CHR ''8'', 8), (CHR ''9'', 9),
             (CHR ''a'', 10), (CHR ''b'', 11), (CHR ''c'', 12), (CHR ''d'', 13),
             (CHR ''e'', 14), (CHR ''f'', 15),
             (CHR ''A'', 10), (CHR ''B'', 11), (CHR ''C'', 12), (CHR ''D'', 13),
             (CHR ''E'', 14), (CHR ''F'', 15)] c"

definition digit_in :: "int \<Rightarrow> char \<Rightarrow> int option" where
  "digit_in base c =
     (case digit_of c of None \<Rightarrow> None | Some d \<Rightarrow> if d < base then Some d else None)"

definition is_digit :: "char \<Rightarrow> bool" where
  "is_digit c = (digit_in 10 c \<noteq> None)"

fun digits_val :: "int \<Rightarrow> int \<Rightarrow> string \<Rightarrow> int option" where
  "digits_val base acc [] = Some acc"
| "digits_val base acc (c # cs) =
     (case digit_in base c of
        None \<Rightarrow> None
      | Some d \<Rightarrow> digits_val base (base * acc + d) cs)"

text \<open>Digits in a radix, at least one.\<close>

definition radix_number :: "int \<Rightarrow> string \<Rightarrow> number" where
  "radix_number base ds =
     (if ds = [] then NaN
      else (case digits_val base 0 ds of None \<Rightarrow> NaN | Some i \<Rightarrow> Num i))"

text \<open>The exponent part: nothing, or \<^verbatim>\<open>e\<close> or \<^verbatim>\<open>E\<close>, an optional sign and digits.\<close>

definition exponent_of :: "string \<Rightarrow> int option" where
  "exponent_of r =
     (case r of
        [] \<Rightarrow> Some 0
      | c # cs \<Rightarrow>
          if c = CHR ''e'' \<or> c = CHR ''E'' then
            (case cs of
               [] \<Rightarrow> None
             | g # ds \<Rightarrow>
                 if g = CHR ''-'' then
                   (if ds = [] then None else map_option uminus (digits_val 10 0 ds))
                 else if g = CHR ''+'' then
                   (if ds = [] then None else digits_val 10 0 ds)
                 else digits_val 10 0 cs)
          else None)"

text \<open>The mantissa \<open>m\<close> times 10 to the power \<open>k\<close>, when that is an integer.\<close>

definition scale :: "int \<Rightarrow> int \<Rightarrow> number" where
  "scale m k =
     (if 0 \<le> k then Num (m * 10 ^ nat k)
      else if m mod 10 ^ nat (- k) = 0 then Num (m div 10 ^ nat (- k))
      else NaN)"

text \<open>An unsigned decimal literal: digits, an optional fraction, an optional exponent.\<close>

definition decimal_number :: "string \<Rightarrow> number" where
  "decimal_number s =
     (let ip = takeWhile is_digit s;
          r1 = dropWhile is_digit s;
          dotted = (r1 \<noteq> [] \<and> hd r1 = CHR ''.'');
          fp = (if dotted then takeWhile is_digit (tl r1) else []);
          r2 = (if dotted then dropWhile is_digit (tl r1) else r1)
      in if ip = [] \<and> fp = [] then NaN
         else
           (case exponent_of r2 of
              None \<Rightarrow> NaN
            | Some ex \<Rightarrow>
                (case digits_val 10 0 (ip @ fp) of
                   None \<Rightarrow> NaN
                 | Some m \<Rightarrow> scale m (ex - int (length fp)))))"

definition string_to_number :: "string \<Rightarrow> number" where
  "string_to_number s =
     (case trim s of
        [] \<Rightarrow> Num 0
      | c # cs \<Rightarrow>
          if c = CHR ''-'' then
            (case decimal_number cs of Num i \<Rightarrow> Num (- i) | NaN \<Rightarrow> NaN)
          else if c = CHR ''+'' then decimal_number cs
          else if c = CHR ''0'' \<and> cs \<noteq> [] \<and> hd cs \<in> set ''xX'' then radix_number 16 (tl cs)
          else if c = CHR ''0'' \<and> cs \<noteq> [] \<and> hd cs \<in> set ''oO'' then radix_number 8 (tl cs)
          else if c = CHR ''0'' \<and> cs \<noteq> [] \<and> hd cs \<in> set ''bB'' then radix_number 2 (tl cs)
          else decimal_number (c # cs))"

fun to_number :: "jsval \<Rightarrow> number" where
  "to_number JUndefined = NaN"
| "to_number JNull = Num 0"
| "to_number (JBool b) = Num (if b then 1 else 0)"
| "to_number (JNum n) = n"
| "to_number (JStr s) = string_to_number s"
| "to_number (JObj kvs) = NaN"
| "to_number (JArr []) = Num 0"
| "to_number (JArr [JUndefined]) = Num 0"
| "to_number (JArr [JNull]) = Num 0"
| "to_number (JArr [JBool b]) = NaN"
| "to_number (JArr [JNum n]) = n"
| "to_number (JArr [JStr s]) = string_to_number s"
| "to_number (JArr [JObj kvs]) = NaN"
| "to_number (JArr [JArr xs]) = to_number (JArr xs)"
| "to_number (JArr (x # y # zs)) = NaN"

text \<open>Arithmetic and comparison of numbers: \<open>NaN\<close> propagates, and compares false.\<close>

fun num_sub :: "number \<Rightarrow> number \<Rightarrow> number" where
  "num_sub (Num a) (Num b) = Num (a - b)"
| "num_sub a b = NaN"

fun num_le :: "number \<Rightarrow> number \<Rightarrow> bool" where
  "num_le (Num a) (Num b) = (a \<le> b)"
| "num_le a b = False"

fun num_ge :: "number \<Rightarrow> number \<Rightarrow> bool" where
  "num_ge (Num a) (Num b) = (a \<ge> b)"
| "num_ge a b = False"

section \<open>The credential store and JSON\<close>

text \<open>
  Local storage holds strings, and the session manager uses the stored string in two
  ways only: it tests whether it is empty, and it hands it to \<^verbatim>\<open>JSON.parse\<close>. A stored
  string is therefore represented by what these two observe: \<open>JsonText v\<close> stands for a
  (non-empty) JSON text that parses to \<open>v\<close>, and \<open>NotJson s\<close> for a string \<open>s\<close> that
  \<^verbatim>\<open>JSON.parse\<close> rejects with a \<^verbatim>\<open>SyntaxError\<close>.
\<close>

datatype stored = NotJson string | JsonText jsval

definition JSON_parse :: "stored \<Rightarrow> error + jsval" where
  "JSON_parse t = (case t of NotJson s \<Rightarrow> Inl SyntaxError | JsonText v \<Rightarrow> Inr v)"

text \<open>Truthiness of a string: it is not empty.\<close>

definition nonempty :: "stored \<Rightarrow> bool" where
  "nonempty t = (case t of NotJson s \<Rightarrow> s \<noteq> [] | JsonText v \<Rightarrow> True)"

text \<open>
  What the text written by \<^verbatim>\<open>JSON.stringify\<close> denotes: a property whose value is
  \<^verbatim>\<open>undefined\<close> is omitted, an \<^verbatim>\<open>undefined\<close> array element and \<open>NaN\<close> are written as
  \<^verbatim>\<open>null\<close>. \<^verbatim>\<open>JSON.stringify(undefined)\<close> is \<^verbatim>\<open>undefined\<close>, not a string, and
  \<^verbatim>\<open>setItem\<close> stores the string \<^verbatim>\<open>"undefined"\<close> for it.
\<close>

primrec jsonify :: "jsval \<Rightarrow> jsval" where
  "jsonify JUndefined = JUndefined"
| "jsonify JNull = JNull"
| "jsonify (JBool b) = JBool b"
| "jsonify (JNum n) = (case n of Num i \<Rightarrow> JNum (Num i) | NaN \<Rightarrow> JNull)"
| "jsonify (JStr s) = JStr s"
| "jsonify (JObj kvs) =
     JObj (filter (\<lambda>(k, v). v \<noteq> JUndefined) (map (map_prod id jsonify) kvs))"
| "jsonify (JArr xs) =
     JArr (map (\<lambda>v. if v = JUndefined then JNull else v) (map jsonify xs))"

definition JSON_stringify :: "jsval \<Rightarrow> stored option" where
  "JSON_stringify v = (case jsonify v of JUndefined \<Rightarrow> None | w \<Rightarrow> Some (JsonText w))"

definition item_string :: "stored option \<Rightarrow> stored" where
  "item_string x = (case x of None \<Rightarrow> NotJson ''undefined'' | Some t \<Rightarrow> t)"

text \<open>The values a JSON text can denote: no \<^verbatim>\<open>undefined\<close> and no \<open>NaN\<close> anywhere.\<close>

primrec json_value :: "jsval \<Rightarrow> bool" where
  "json_value JUndefined = False"
| "json_value JNull = True"
| "json_value (JBool b) = True"
| "json_value (JNum n) = (n \<noteq> NaN)"
| "json_value (JStr s) = True"
| "json_value (JObj kvs) = list_all (pred_prod (\<lambda>k. True) json_value) kvs"
| "json_value (JArr xs) = list_all json_value xs"

section \<open>The session manager (AuthContext.jsx)\<close>

text \<open>
  The state of the provider and of the platform around it: the \<^verbatim>\<open>"user"\<close> entry of local
  storage, the React state \<^verbatim>\<open>user\<close> and \<^verbatim>\<open>ready\<close>, the ref holding the timer handle,
  the time-outs pending in the runtime (handle and due time; every one of them calls
  \<^verbatim>\<open>logout\<close>), the last handle handed out, and the dependency \<^verbatim>\<open>user?.expiresAt\<close> with
  which the second effect last ran (\<open>None\<close> before the first render is committed).

  The clock reading \<^verbatim>\<open>Date.now()\<close> is a parameter \<open>now\<close> of every operation. A time-out
  is due at the clock reading of its creation plus the delay the runtime gives it.
\<close>

record auth_state =
  storage :: "stored option"
  user :: jsval
  ready :: bool
  logoutTimerRef :: "nat option"
  timers :: "(nat \<times> int) list"
  last_handle :: nat
  effect_dep :: "jsval option"

definition initial :: "stored option \<Rightarrow> auth_state" where
  "initial st =
     \<lparr>storage = st, user = JNull, ready = False, logoutTimerRef = None, timers = [],
      last_handle = 0, effect_dep = None\<rparr>"

text \<open>
  \<^verbatim>\<open>setTimeout\<close> hands out a fresh positive handle. The runtime keeps a delay as a
  32-bit integer of milliseconds: a delay from 1 to \<open>max_delay\<close> = 2^31 - 1 (about 24.8
  days) is honoured; a delay above it, below 1 or \<open>NaN\<close> is replaced by 1 (so Node.js
  documents it; a browser fires such a time-out at once as well), and the time-out does
  not wait for the instant the caller meant. \<^verbatim>\<open>clearTimeout\<close> removes the time-out of
  that handle, if any.
\<close>

definition max_delay :: int where
  "max_delay = 2147483647"

definition timer_delay :: "number \<Rightarrow> int" where
  "timer_delay delay =
     (case delay of Num i \<Rightarrow> if 1 \<le> i \<and> i \<le> max_delay then i else 1 | NaN \<Rightarrow> 1)"

definition setTimeout :: "int \<Rightarrow> number \<Rightarrow> auth_state \<Rightarrow> nat \<times> auth_state" where
  "setTimeout now delay s =
     (let h = Suc (last_handle s)
      in (h, s\<lparr>timers := timers s @ [(h, now + timer_delay delay)], last_handle := h\<rparr>))"

definition clearTimeout :: "nat \<Rightarrow> auth_state \<Rightarrow> auth_state" where
  "clearTimeout h s = s\<lparr>timers := filter (\<lambda>(h', d). h' \<noteq> h) (timers s)\<rparr>"

text \<open>
  \<^verbatim>\<open>clearLogoutTimer\<close> (AuthContext.jsx, lines 32 to 37), \<^verbatim>\<open>logout\<close> (lines 74 to 78)
  and \<^verbatim>\<open>scheduleAutoLogout\<close> (lines 40 to 51). The handle in the ref is tested for
  truthiness: a handle is a positive number.
\<close>

definition clearLogoutTimer :: "auth_state \<Rightarrow> auth_state" where
  "clearLogoutTimer s =
     (case logoutTimerRef s of
        None \<Rightarrow> s
      | Some h \<Rightarrow> if h = 0 then s else (clearTimeout h s)\<lparr>logoutTimerRef := None\<rparr>)"

definition logout :: "auth_state \<Rightarrow> auth_state" where
  "logout s = clearLogoutTimer (s\<lparr>storage := None, user := JNull\<rparr>)"

definition scheduleAutoLogout :: "int \<Rightarrow> jsval \<Rightarrow> auth_state \<Rightarrow> auth_state" where
  "scheduleAutoLogout now expiresAt s =
     (let s1 = clearLogoutTimer s in
      if \<not> truthy expiresAt then s1
      else
        let msLeft = num_sub (to_number expiresAt) (Num now) in
        if num_le msLeft (Num 0) then logout s1
        else (case setTimeout now msLeft s1 of (h, s2) \<Rightarrow> s2\<lparr>logoutTimerRef := Some h\<rparr>))"

subsection \<open>The effects\<close>

definition try_catch :: "error + 'a \<Rightarrow> (error \<Rightarrow> error + 'a) \<Rightarrow> error + 'a" where
  "try_catch body handler = (case body of Inl e \<Rightarrow> handler e | Inr x \<Rightarrow> Inr x)"

text \<open>
  The first effect (lines 11 to 29), run once after the first render: it reads the
  stored session. An exception is a value \<open>Inl\<close>; \<open>try_catch\<close> is the
  \<^verbatim>\<open>try { ... } catch { ... }\<close> of the source.
\<close>

definition hydrate :: "int \<Rightarrow> auth_state \<Rightarrow> error + auth_state" where
  "hydrate now s =
     (case
        (case storage s of
           None \<Rightarrow> Inr s
         | Some savedUser \<Rightarrow>
             if \<not> nonempty savedUser then Inr s
             else
               try_catch
                 (case JSON_parse savedUser of
                    Inl e \<Rightarrow> Inl e
                  | Inr parsed \<Rightarrow>
                      let expiresAt = opt_prop parsed ''expiresAt'' in
                      if truthy expiresAt \<and> num_ge (Num now) (to_number expiresAt)
                      then Inr (s\<lparr>storage := None\<rparr>)
                      else Inr (s\<lparr>user := parsed\<rparr>))
                 (\<lambda>e. Inr (s\<lparr>storage := None\<rparr>)))
      of
        Inl e \<Rightarrow> Inl e
      | Inr s' \<Rightarrow> Inr (s'\<lparr>ready := True\<rparr>))"

text \<open>
  The second effect (lines 81 to 90), with the value \<open>u\<close> of \<^verbatim>\<open>user\<close> in the render it
  belongs to.
\<close>

definition user_effect :: "int \<Rightarrow> jsval \<Rightarrow> auth_state \<Rightarrow> auth_state" where
  "user_effect now u s =
     (if truthy (opt_prop u ''expiresAt'') then scheduleAutoLogout now (get_prop u ''expiresAt'') s
      else clearLogoutTimer s)"

text \<open>
  Committing a render of the current state: React runs the second effect when its
  dependency \<^verbatim>\<open>user?.expiresAt\<close> differs from the one it last ran with, after the
  cleanup \<^verbatim>\<open>clearLogoutTimer\<close> of the previous run. The effect may itself change
  \<^verbatim>\<open>user\<close> (by \<^verbatim>\<open>logout\<close>), which renders once more; two commits reach a state that a
  further commit leaves as it is. React compares dependencies with \<^verbatim>\<open>Object.is\<close>, which
  on the primitive values of the model is equality; an \<^verbatim>\<open>expiresAt\<close> that is itself an
  object or an array is compared by structure here.
\<close>

definition commit :: "int \<Rightarrow> auth_state \<Rightarrow> auth_state" where
  "commit now s =
     (let d = opt_prop (user s) ''expiresAt'' in
      case effect_dep s of
        None \<Rightarrow> user_effect now (user s) (s\<lparr>effect_dep := Some d\<rparr>)
      | Some d0 \<Rightarrow>
          if d0 = d then s
          else user_effect now (user s) ((clearLogoutTimer s)\<lparr>effect_dep := Some d\<rparr>))"

definition rerender :: "int \<Rightarrow> auth_state \<Rightarrow> auth_state" where
  "rerender now s = commit now (commit now s)"

text \<open>
  Mounting the provider with the given content of the store: the first render has
  \<^verbatim>\<open>user = null\<close>; both effects run in source order, the second one with the \<^verbatim>\<open>user\<close>
  of that first render; the state set by the first effect is then rendered.
\<close>

definition mount :: "int \<Rightarrow> stored option \<Rightarrow> error + auth_state" where
  "mount now st =
     (let s0 = initial st in
      case hydrate now s0 of
        Inl e \<Rightarrow> Inl e
      | Inr s1 \<Rightarrow>
          Inr (rerender now
                 (user_effect now (user s0)
                    (s1\<lparr>effect_dep := Some (opt_prop (user s0) ''expiresAt'')\<rparr>))))"

subsection \<open>login\<close>

text \<open>
  \<^verbatim>\<open>login\<close> (lines 53 to 72) is an \<^verbatim>\<open>async\<close> function with one \<^verbatim>\<open>await\<close>.
  \<open>login_begin\<close> is the part before it: the call either needs no enrichment and
  completes at once, or it issues the profile request and is suspended, holding
  \<^verbatim>\<open>toStore\<close> and \<^verbatim>\<open>expiresAt\<close>. \<open>login_resume\<close> is the part after the \<^verbatim>\<open>await\<close>, run
  when the request has settled, on whatever the state is by then; \<open>login_finish\<close> is
  the three statements that end the function.
\<close>

datatype login_progress = Awaiting jsval jsval | Completed auth_state

definition login_finish :: "int \<Rightarrow> jsval \<Rightarrow> jsval \<Rightarrow> auth_state \<Rightarrow> auth_state" where
  "login_finish now toStore expiresAt s =
     scheduleAutoLogout now expiresAt
       (s\<lparr>storage := Some (item_string (JSON_stringify toStore)), user := toStore\<rparr>)"

text \<open>The two constants of the body of \<^verbatim>\<open>login\<close>, at clock reading \<open>now\<close>.\<close>

definition login_expiresAt :: "int \<Rightarrow> jsval \<Rightarrow> jsval" where
  "login_expiresAt now userData =
     js_or (opt_prop userData ''expiresAt'') (JInt (computeExpiry now default_window))"

definition login_toStore :: "int \<Rightarrow> jsval \<Rightarrow> jsval" where
  "login_toStore now userData =
     JObj (AList.update ''expiresAt'' (login_expiresAt now userData)
             (copy_props [] (own_props userData)))"

definition login_begin :: "int \<Rightarrow> jsval \<Rightarrow> auth_state \<Rightarrow> login_progress" where
  "login_begin now userData s =
     (let expiresAt = login_expiresAt now userData;
          toStore = login_toStore now userData
      in if \<not> truthy (get_prop toStore ''role'') \<and> truthy (get_prop toStore ''token'')
         then Awaiting toStore expiresAt
         else Completed (login_finish now toStore expiresAt s))"

definition assign :: "jsval \<Rightarrow> string \<Rightarrow> jsval \<Rightarrow> jsval" where
  "assign obj k v = (case obj of JObj kvs \<Rightarrow> JObj (AList.update k v kvs) | _ \<Rightarrow> obj)"

text \<open>The body of the \<^verbatim>\<open>try\<close> block: the two assignments happen only when the fetch succeeds.\<close>

definition enrich :: "jsval \<Rightarrow> http_result \<Rightarrow> error + jsval" where
  "enrich toStore res =
     (case fetchCurrentUser (get_prop toStore ''token'') res of
        Inl e \<Rightarrow> Inl e
      | Inr fresh \<Rightarrow>
          let t1 = assign toStore ''role''
                     (js_or (opt_prop fresh ''role'') (get_prop toStore ''role''));
              t2 = assign t1 ''id''
                     (js_or (get_prop t1 ''id'')
                        (js_or (opt_prop fresh ''id'')
                           (js_or (opt_prop fresh ''_id'') (opt_prop fresh ''userId''))))
          in Inr t2)"

definition login_resume ::
  "int \<Rightarrow> jsval \<Rightarrow> jsval \<Rightarrow> http_result \<Rightarrow> auth_state \<Rightarrow> error + auth_state" where
  "login_resume now toStore expiresAt res s =
     (case try_catch (enrich toStore res) (\<lambda>e. Inr toStore) of
        Inl e \<Rightarrow> Inl e
      | Inr t \<Rightarrow> Inr (login_finish now t expiresAt s))"

text \<open>
  A whole call of \<^verbatim>\<open>login\<close> at clock reading \<open>now\<close>, whose profile request, if one is
  made, settles with \<open>res\<close> at clock reading \<open>now'\<close>, nothing else happening in between;
  React then renders the new state.
\<close>

definition login_call ::
  "int \<Rightarrow> int \<Rightarrow> jsval \<Rightarrow> http_result \<Rightarrow> auth_state \<Rightarrow> error + auth_state" where
  "login_call now now' userData res s =
     (case login_begin now userData s of
        Completed s' \<Rightarrow> Inr (rerender now s')
      | Awaiting toStore expiresAt \<Rightarrow>
          (case login_resume now' toStore expiresAt res s of
             Inl e \<Rightarrow> Inl e
           | Inr s' \<Rightarrow> Inr (rerender now' s')))"

subsection \<open>The login page\<close>

text \<open>
  \<^verbatim>\<open>handleSubmit\<close> of the login page, as far as the session is concerned (its toasts,
  its loading flag and the navigation are left out): after the check of the form it
  awaits \<^verbatim>\<open>loginUser\<close>, whose request has the outcome \<open>res\<close>, and calls
  \<^verbatim>\<open>login({ ...res.user, token: res.token })\<close> at clock reading \<open>now\<close>; an exception
  is caught and reported, and leaves the session as it was.
\<close>

definition handleSubmit ::
  "string \<Rightarrow> string \<Rightarrow> int \<Rightarrow> int \<Rightarrow> http_result \<Rightarrow> http_result \<Rightarrow> auth_state
     \<Rightarrow> auth_state" where
  "handleSubmit username password now now' res profile s =
     (if trim username = [] \<or> password = [] then s
      else
        (case loginUser res of
           Inl e \<Rightarrow> s
         | Inr r \<Rightarrow>
             (case login_call now now'
                     (JObj (AList.update ''token'' (get_prop r ''token'')
                              (copy_props [] (own_props (get_prop r ''user'')))))
                     profile s of
                Inl e \<Rightarrow> s
              | Inr s' \<Rightarrow> s')))"

subsection \<open>The timer firing\<close>

definition fire_timer :: "nat \<Rightarrow> auth_state \<Rightarrow> auth_state" where
  "fire_timer h s =
     (if h \<in> fst ` set (timers s)
      then logout (s\<lparr>timers := filter (\<lambda>(h', d). h' \<noteq> h) (timers s)\<rparr>)
      else s)"

definition due :: "int \<Rightarrow> auth_state \<Rightarrow> nat list" where
  "due now s = map fst (filter (\<lambda>(h, d). d \<le> now) (timers s))"

text \<open>The clock reaches \<open>now\<close>: every time-out due by then fires, and React renders.\<close>

definition advance_clock :: "int \<Rightarrow> auth_state \<Rightarrow> auth_state" where
  "advance_clock now s = foldl (\<lambda>acc h. rerender now (fire_timer h acc)) s (due now s)"

subsection \<open>The states the provider can be in\<close>

text \<open>
  The provider is mounted once; afterwards calls of \<^verbatim>\<open>login\<close> and \<^verbatim>\<open>logout\<close>, the
  settling of profile requests and the passing of time interleave in any order, each
  followed by a render. A profile request may settle in any later state: the call that
  issued it was begun in some state \<open>s0\<close>, and is resumed in the state \<open>s\<close> of that
  moment.
\<close>

inductive reachable :: "auth_state \<Rightarrow> bool" where
  mounted: "mount now st = Inr s \<Longrightarrow> reachable s"
| login_completed:
    "reachable s \<Longrightarrow> login_begin now userData s = Completed s' \<Longrightarrow>
     reachable (rerender now s')"
| login_settled:
    "reachable s \<Longrightarrow> login_begin now0 userData s0 = Awaiting toStore expiresAt \<Longrightarrow>
     login_resume now toStore expiresAt res s = Inr s' \<Longrightarrow>
     reachable (rerender now s')"
| logged_out: "reachable s \<Longrightarrow> reachable (rerender now (logout s))"
| clock: "reachable s \<Longrightarrow> reachable (advance_clock now s)"

code_pred reachable .

subsection \<open>Predicates on states and values\<close>

text \<open>
  The ref and the runtime agree: either the ref is \<^verbatim>\<open>null\<close> and no time-out is
  pending, or it holds the handle of the only pending time-out.
\<close>

definition timer_inv :: "auth_state \<Rightarrow> bool" where
  "timer_inv s =
     (case logoutTimerRef s of
        None \<Rightarrow> timers s = []
      | Some h \<Rightarrow> h \<noteq> 0 \<and> (case timers s of [(h', d)] \<Rightarrow> h' = h | _ \<Rightarrow> False))"

text \<open>Exactly one time-out is pending, it is due at \<open>x\<close>, and the ref holds its handle.\<close>

definition armed :: "int \<Rightarrow> auth_state \<Rightarrow> bool" where
  "armed x s =
     (case (logoutTimerRef s, timers s) of
        (Some h, [(h', d)]) \<Rightarrow> h' = h \<and> h \<noteq> 0 \<and> d = x
      | _ \<Rightarrow> False)"

text \<open>
  The state right after mounting with no session: nobody is logged in, no time-out was
  ever created, and \<open>st\<close> is what the store holds.
\<close>

definition unauthenticated :: "stored option \<Rightarrow> auth_state" where
  "unauthenticated st =
     \<lparr>storage = st, user = JNull, ready = True, logoutTimerRef = None, timers = [],
      last_handle = 0, effect_dep = Some JUndefined\<rparr>"

text \<open>The values that pass the guard of \<^verbatim>\<open>normalizeUser\<close>: objects and arrays.\<close>

definition is_object :: "jsval \<Rightarrow> bool" where
  "is_object v = (truthy v \<and> typeof v = ''object'')"

section \<open>Properties of values\<close>

text \<open>
  Reading a property after an assignment or a spread, what \<^verbatim>\<open>normalizeUser\<close> makes of an
  object, and what a JSON text keeps of a value.
\<close>

lemma get_prop_JObj:
  "get_prop (JObj kvs) k = (case map_of kvs k of Some x \<Rightarrow> x | None \<Rightarrow> JUndefined)"
  by (simp add: get_prop_def split: option.splits)

lemma get_prop_update:
  "get_prop (JObj (AList.update k v kvs)) k' = (if k' = k then v else get_prop (JObj kvs) k')"
  by (simp add: get_prop_JObj update_conv')

lemma opt_prop_JObj [simp]: "opt_prop (JObj kvs) k = get_prop (JObj kvs) k"
  by (simp add: opt_prop_def)

lemma opt_prop_truthy:
  assumes "truthy (opt_prop u k)"
  shows "get_prop u k = opt_prop u k"
  using assms by (auto simp add: opt_prop_def)

lemma opt_prop_nullish [simp]:
  "opt_prop JNull k = JUndefined" "opt_prop JUndefined k = JUndefined"
  by (simp_all add: opt_prop_def)

lemma map_of_copy_props:
  assumes "k \<notin> fst ` set kvs"
  shows "map_of (copy_props obj kvs) k = map_of obj k"
  using assms unfolding copy_props_def
  by (induction kvs arbitrary: obj) (auto simp add: update_conv')

lemma rest_has_none:
  assumes "k \<in> set destructured"
  shows "k \<notin> fst ` set (filter (\<lambda>(k, v). k \<notin> set destructured) kvs)"
  using assms by auto

lemma rest_lookup:
  assumes "k \<in> set destructured"
  shows "map_of (filter (\<lambda>(k, v). k \<notin> set destructured) kvs) k = None"
  using rest_has_none [OF assms] by (simp add: map_of_eq_None_iff)

lemma in_destructured [simp]:
  "''id'' \<in> set destructured" "''role'' \<in> set destructured"
  "''username'' \<in> set destructured" "''email'' \<in> set destructured"
  by (simp_all add: destructured_def)

lemma js_or_undefined [simp]: "js_or a JUndefined = (if truthy a then a else JUndefined)"
  by (simp add: js_or_def)

lemma truthy_js_or [simp]: "truthy (js_or a b) = (truthy a \<or> truthy b)"
  by (simp add: js_or_def)

lemma normalizeUser_object:
  assumes "is_object raw"
  shows "\<exists>kvs. normalizeUser raw = JObj kvs"
    and "get_prop (normalizeUser raw) ''role'' = js_or (get_prop raw ''role'') (JStr ''user'')"
    and "get_prop (normalizeUser raw) ''id'' =
           js_or (get_prop raw ''id'') (js_or (get_prop raw ''_id'')
             (js_or (get_prop raw ''userId'') JUndefined))"
proof -
  let ?rest = "filter (\<lambda>(k, v). k \<notin> set destructured) (own_props raw)"
  show "\<exists>kvs. normalizeUser raw = JObj kvs"
    using assms by (simp add: normalizeUser_def is_object_def Let_def)
  have r: "map_of (copy_props base ?rest) k = map_of base k" if "k \<in> set destructured" for k base
    using rest_has_none [OF that] by (rule map_of_copy_props)
  show "get_prop (normalizeUser raw) ''role'' = js_or (get_prop raw ''role'') (JStr ''user'')"
    using assms
    by (simp add: normalizeUser_def is_object_def Let_def get_prop_JObj r rest_lookup
        del: js_or_undefined) (simp add: js_or_def)
  show "get_prop (normalizeUser raw) ''id'' =
           js_or (get_prop raw ''id'') (js_or (get_prop raw ''_id'')
             (js_or (get_prop raw ''userId'') JUndefined))"
    using assms
    by (simp add: normalizeUser_def is_object_def Let_def get_prop_JObj r rest_lookup
        del: js_or_undefined)
qed

lemma normalizeUser_other:
  assumes "\<not> is_object raw"
  shows "normalizeUser raw = raw"
  using assms by (auto simp add: normalizeUser_def is_object_def)

lemma truthy_normalizeUser [simp]: "truthy (normalizeUser raw) = truthy raw"
proof (cases "is_object raw")
  case True
  then show ?thesis using normalizeUser_object(1) [OF True] by (auto simp add: is_object_def)
next
  case False
  then show ?thesis by (simp add: normalizeUser_other)
qed

lemma jsonify_undefined_iff: "jsonify v = JUndefined \<longleftrightarrow> v = JUndefined"
  by (cases v) (simp_all split: number.splits)

lemma jsonify_id:
  assumes "json_value v"
  shows "jsonify v = v"
  using assms
proof (induction v)
  case (JObj kvs)
  have a: "\<And>k w. (k, w) \<in> set kvs \<Longrightarrow> jsonify w = w \<and> w \<noteq> JUndefined"
  proof -
    fix k w assume m: "(k, w) \<in> set kvs"
    then have "json_value w" using JObj.prems by (auto simp add: list_all_iff)
    moreover have "w \<in> Basic_BNFs.snds (k, w)" by simp
    ultimately show "jsonify w = w \<and> w \<noteq> JUndefined" using JObj.IH [OF m] by auto
  qed
  have "map (map_prod id jsonify) kvs = kvs"
    using a by (intro map_idI) auto
  moreover have "filter (\<lambda>(k, v). v \<noteq> JUndefined) kvs = kvs"
    using a by (intro filter_True) auto
  ultimately show ?case by simp
next
  case (JArr xs)
  have a: "\<And>w. w \<in> set xs \<Longrightarrow> jsonify w = w \<and> w \<noteq> JUndefined"
  proof -
    fix w assume m: "w \<in> set xs"
    then have "json_value w" using JArr.prems by (auto simp add: list_all_iff)
    then show "jsonify w = w \<and> w \<noteq> JUndefined" using JArr.IH [OF m] by auto
  qed
  have "map jsonify xs = xs" using a by (intro map_idI) auto
  moreover have "map (\<lambda>v. if v = JUndefined then JNull else v) xs = xs"
    using a by (intro map_idI) auto
  ultimately show ?case by simp
qed (simp_all split: number.splits)

lemma map_of_jsonified:
  assumes "map_of kvs k = Some v" and "v \<noteq> JUndefined"
  shows "map_of (filter (\<lambda>(k, v). v \<noteq> JUndefined) (map (map_prod id jsonify) kvs)) k
           = Some (jsonify v)"
  using assms
  by (induction kvs) (auto simp add: jsonify_undefined_iff)

lemma get_prop_jsonify_int:
  assumes "get_prop (JObj kvs) k = JInt e"
  shows "get_prop (jsonify (JObj kvs)) k = JInt e"
proof -
  from assms have "map_of kvs k = Some (JInt e)"
    by (simp add: get_prop_JObj split: option.splits)
  then have "map_of (filter (\<lambda>(k, v). v \<noteq> JUndefined) (map (map_prod id jsonify) kvs)) k
           = Some (jsonify (JInt e))"
    by (rule map_of_jsonified) simp
  then show ?thesis by (simp add: get_prop_JObj)
qed

lemma map_of_jsonified_absent:
  assumes "k \<notin> fst ` set kvs"
  shows "map_of (filter (\<lambda>(k, v). v \<noteq> JUndefined) (map (map_prod id jsonify) kvs)) k = None"
  using assms by (induction kvs) auto

lemma map_of_jsonified_distinct:
  assumes "distinct (map fst kvs)"
  shows "map_of (filter (\<lambda>(k, v). v \<noteq> JUndefined) (map (map_prod id jsonify) kvs)) k
           = (case map_of kvs k of
                None \<Rightarrow> None
              | Some v \<Rightarrow> if v = JUndefined then None else Some (jsonify v))"
  using assms
  by (induction kvs) (auto simp add: jsonify_undefined_iff map_of_jsonified_absent)

lemma get_prop_jsonify:
  assumes "distinct (map fst kvs)"
  shows "get_prop (jsonify (JObj kvs)) k = jsonify (get_prop (JObj kvs) k)"
  using map_of_jsonified_distinct [OF assms, of k]
  by (simp add: get_prop_JObj split: option.splits)

lemma JSON_stringify_JObj:
  "item_string (JSON_stringify (JObj kvs)) = JsonText (jsonify (JObj kvs))"
  by (simp add: JSON_stringify_def item_string_def)

lemma not_expired_cases:
  assumes "\<not> (truthy e \<and> num_ge (Num now) (to_number e))"
  obtains "\<not> truthy e" | "truthy e" "to_number e = NaN"
  | x where "truthy e" "to_number e = Num x" "now < x"
  using assms by (cases "to_number e"; cases "truthy e") auto

section \<open>The timer discipline\<close>

text \<open>
  Every operation of the provider keeps \<open>timer_inv\<close>; under it \<^verbatim>\<open>clearLogoutTimer\<close>,
  \<^verbatim>\<open>logout\<close> and \<^verbatim>\<open>scheduleAutoLogout\<close> have closed forms.
\<close>

lemma timer_inv_cases:
  assumes "timer_inv s"
  obtains "logoutTimerRef s = None" "timers s = []"
  | h d where "logoutTimerRef s = Some h" "h \<noteq> 0" "timers s = [(h, d)]"
  using assms unfolding timer_inv_def
  by (auto split: option.splits list.splits)

lemma clearLogoutTimer_inv:
  assumes "timer_inv s"
  shows "clearLogoutTimer s = s\<lparr>logoutTimerRef := None, timers := []\<rparr>"
  using assms
  by (rule timer_inv_cases) (simp_all add: clearLogoutTimer_def clearTimeout_def)

lemma timer_inv_cleared [simp]:
  "timer_inv (s\<lparr>logoutTimerRef := None, timers := []\<rparr>)"
  by (simp add: timer_inv_def)

lemma timer_inv_upd [simp]:
  "timer_inv (s\<lparr>storage := a\<rparr>) = timer_inv s"
  "timer_inv (s\<lparr>user := b\<rparr>) = timer_inv s"
  "timer_inv (s\<lparr>ready := c\<rparr>) = timer_inv s"
  "timer_inv (s\<lparr>effect_dep := e\<rparr>) = timer_inv s"
  by (simp_all add: timer_inv_def split: option.splits list.splits)

lemma logout_inv:
  assumes "timer_inv s"
  shows "logout s = s\<lparr>storage := None, user := JNull, logoutTimerRef := None, timers := []\<rparr>"
  using assms by (simp add: logout_def clearLogoutTimer_inv)

lemma scheduleAutoLogout_inv:
  assumes "timer_inv s"
  shows "scheduleAutoLogout now e s =
     (if \<not> truthy e then s\<lparr>logoutTimerRef := None, timers := []\<rparr>
      else case to_number e of
        NaN \<Rightarrow> s\<lparr>logoutTimerRef := Some (Suc (last_handle s)),
                 timers := [(Suc (last_handle s), now + 1)],
                 last_handle := Suc (last_handle s)\<rparr>
      | Num x \<Rightarrow>
          if x \<le> now then
            s\<lparr>storage := None, user := JNull, logoutTimerRef := None, timers := []\<rparr>
          else s\<lparr>logoutTimerRef := Some (Suc (last_handle s)),
                 timers := [(Suc (last_handle s),
                             if x - now \<le> max_delay then x else now + 1)],
                 last_handle := Suc (last_handle s)\<rparr>)"
  using assms
  by (simp add: scheduleAutoLogout_def clearLogoutTimer_inv logout_inv setTimeout_def
      timer_delay_def Let_def split: number.splits)

lemma scheduleAutoLogout_timer_inv:
  assumes "timer_inv s"
  shows "timer_inv (scheduleAutoLogout now e s)"
  using assms
  by (simp add: scheduleAutoLogout_inv timer_inv_def split: number.splits)


lemma user_effect_timer_inv:
  assumes "timer_inv s"
  shows "timer_inv (user_effect now u s)"
  using assms
  by (simp add: user_effect_def scheduleAutoLogout_timer_inv clearLogoutTimer_inv)

lemma commit_timer_inv:
  assumes "timer_inv s"
  shows "timer_inv (commit now s)"
  using assms
  by (simp add: commit_def Let_def user_effect_timer_inv clearLogoutTimer_inv
      split: option.splits)

lemma rerender_timer_inv:
  assumes "timer_inv s"
  shows "timer_inv (rerender now s)"
  using assms by (simp add: rerender_def commit_timer_inv)

lemma hydrate_total: "\<exists>s'. hydrate now s = Inr s'"
  by (simp add: hydrate_def try_catch_def JSON_parse_def Let_def
      split: option.splits stored.splits)

lemma hydrate_timer_inv:
  assumes "hydrate now s = Inr s'" and "timer_inv s"
  shows "timer_inv s'"
  using assms
  by (auto simp add: hydrate_def try_catch_def JSON_parse_def Let_def
      split: option.splits stored.splits if_splits)

lemma timer_inv_initial: "timer_inv (initial st)"
  by (simp add: initial_def timer_inv_def)

lemma mount_timer_inv:
  assumes "mount now st = Inr s"
  shows "timer_inv s"
proof -
  obtain s1 where h: "hydrate now (initial st) = Inr s1"
    using hydrate_total by blast
  have "timer_inv s1"
    using h timer_inv_initial by (rule hydrate_timer_inv)
  then show ?thesis
    using assms h by (auto simp add: mount_def Let_def rerender_timer_inv user_effect_timer_inv)
qed

lemma login_finish_timer_inv:
  assumes "timer_inv s"
  shows "timer_inv (login_finish now t e s)"
  using assms by (simp add: login_finish_def scheduleAutoLogout_timer_inv)

lemma fire_timer_timer_inv:
  assumes "timer_inv s"
  shows "timer_inv (fire_timer h s)"
  using assms
  by (rule timer_inv_cases)
     (auto simp add: fire_timer_def logout_def clearLogoutTimer_def clearTimeout_def timer_inv_def)

lemma foldl_inv:
  assumes "\<And>a x. P a \<Longrightarrow> P (f a x)" and "P a"
  shows "P (foldl f a xs)"
  using assms(2) by (induction xs arbitrary: a) (simp_all add: assms(1))

lemma advance_clock_timer_inv:
  assumes "timer_inv s"
  shows "timer_inv (advance_clock now s)"
  unfolding advance_clock_def
  by (rule foldl_inv) (simp_all add: assms rerender_timer_inv fire_timer_timer_inv)

lemma armed_iff:
  "armed x s \<longleftrightarrow> (\<exists>h. h \<noteq> 0 \<and> logoutTimerRef s = Some h \<and> timers s = [(h, x)])"
  by (auto simp add: armed_def split: option.splits list.splits)

lemma armed_timer_inv: "armed x s \<Longrightarrow> timer_inv s"
  by (auto simp add: armed_iff timer_inv_def)

section \<open>Rendering and the clock\<close>

text \<open>
  A third commit changes nothing (\<open>commit_stable\<close>); a render leaves \<^verbatim>\<open>user\<close> and the
  store alone unless the session it renders has expired; an armed time-out fires when
  the clock reaches its due time and not before.
\<close>

lemma commit_fixed:
  assumes "effect_dep s = Some (opt_prop (user s) ''expiresAt'')"
  shows "commit now s = s"
  using assms by (simp add: commit_def)

lemma user_clearLogoutTimer [simp]:
  "user (clearLogoutTimer s) = user s" "storage (clearLogoutTimer s) = storage s"
  "ready (clearLogoutTimer s) = ready s" "effect_dep (clearLogoutTimer s) = effect_dep s"
  by (simp_all add: clearLogoutTimer_def clearTimeout_def split: option.splits)

lemma effect_dep_scheduleAutoLogout [simp]:
  "effect_dep (scheduleAutoLogout now e s) = effect_dep s"
  by (simp add: scheduleAutoLogout_def logout_def setTimeout_def Let_def split: prod.splits)

lemma user_scheduleAutoLogout:
  "user (scheduleAutoLogout now e s) =
     (if truthy e \<and> num_ge (Num now) (to_number e) then JNull else user s)"
  "storage (scheduleAutoLogout now e s) =
     (if truthy e \<and> num_ge (Num now) (to_number e) then None else storage s)"
  "ready (scheduleAutoLogout now e s) = ready s"
  by (cases "to_number e";
      simp add: scheduleAutoLogout_def logout_def setTimeout_def Let_def split: prod.splits)+

lemma commit_stable: "commit now (rerender now s) = rerender now s"
proof -
  have "effect_dep (commit now (commit now s))
          = Some (opt_prop (user (commit now (commit now s))) ''expiresAt'')"
    by (auto simp add: commit_def Let_def user_effect_def user_scheduleAutoLogout opt_prop_truthy
        split: option.splits)
  then show ?thesis unfolding rerender_def by (rule commit_fixed)
qed

lemma commit_keeps:
  assumes "\<not> (truthy (opt_prop (user s) ''expiresAt'')
              \<and> num_ge (Num now) (to_number (opt_prop (user s) ''expiresAt'')))"
  shows "user (commit now s) = user s" and "storage (commit now s) = storage s"
    and "ready (commit now s) = ready s"
  using assms
  by (auto simp add: commit_def Let_def user_effect_def user_scheduleAutoLogout opt_prop_truthy
      split: option.splits)

lemma rerender_keeps:
  assumes "\<not> (truthy (opt_prop (user s) ''expiresAt'')
              \<and> num_ge (Num now) (to_number (opt_prop (user s) ''expiresAt'')))"
  shows "user (rerender now s) = user s" and "storage (rerender now s) = storage s"
    and "ready (rerender now s) = ready s"
  using assms commit_keeps [of s now] commit_keeps [of "commit now s" now]
  by (simp_all add: rerender_def)

lemma login_finish_fields:
  "user (login_finish now t e s) =
     (if truthy e \<and> num_ge (Num now) (to_number e) then JNull else t)"
  "storage (login_finish now t e s) =
     (if truthy e \<and> num_ge (Num now) (to_number e) then None
      else Some (item_string (JSON_stringify t)))"
  by (simp_all add: login_finish_def user_scheduleAutoLogout)

lemma armed_advance_clock:
  assumes "armed x s" and "x \<le> now"
  shows "user (advance_clock now s) = JNull" and "storage (advance_clock now s) = None"
    and "timers (advance_clock now s) = []" and "logoutTimerRef (advance_clock now s) = None"
proof -
  from assms(1) obtain h where h: "h \<noteq> 0" "logoutTimerRef s = Some h" "timers s = [(h, x)]"
    by (auto simp add: armed_iff)
  let ?s1 = "fire_timer h s"
  have f: "?s1 = s\<lparr>timers := [], storage := None, user := JNull, logoutTimerRef := None\<rparr>"
    using h by (simp add: fire_timer_def logout_def clearLogoutTimer_def clearTimeout_def)
  have a: "advance_clock now s = rerender now ?s1"
    using h assms(2) by (simp add: advance_clock_def due_def)
  have inv: "timer_inv ?s1" by (simp add: f timer_inv_def)
  have k: "\<not> (truthy (opt_prop (user ?s1) ''expiresAt'')
              \<and> num_ge (Num now) (to_number (opt_prop (user ?s1) ''expiresAt'')))"
    by (simp add: f)
  show "user (advance_clock now s) = JNull" "storage (advance_clock now s) = None"
    using rerender_keeps [OF k] by (simp_all add: a f)
  have "timers (commit now ?s1) = [] \<and> logoutTimerRef (commit now ?s1) = None
        \<and> user (commit now ?s1) = JNull"
    by (simp add: f commit_def Let_def user_effect_def clearLogoutTimer_def split: option.splits)
  then have "timers (commit now (commit now ?s1)) = []
        \<and> logoutTimerRef (commit now (commit now ?s1)) = None"
    by (simp add: commit_def Let_def user_effect_def clearLogoutTimer_def split: option.splits)
  then show "timers (advance_clock now s) = []" "logoutTimerRef (advance_clock now s) = None"
    by (simp_all add: a rerender_def)
qed

lemma armed_not_due:
  assumes "armed x s" and "now < x"
  shows "advance_clock now s = s"
  using assms by (auto simp add: armed_iff advance_clock_def due_def)

section \<open>Mounting\<close>

text \<open>The state after mounting, for each kind of content of the store.\<close>

lemmas mount_defs =
  mount_def initial_def hydrate_def try_catch_def JSON_parse_def nonempty_def
  user_effect_def rerender_def commit_def clearLogoutTimer_def Let_def

lemma mount_absent: "mount now None = Inr (unauthenticated None)"
  by (simp add: mount_defs unauthenticated_def)

lemma mount_empty_string:
  "mount now (Some (NotJson [])) = Inr (unauthenticated (Some (NotJson [])))"
  by (simp add: mount_defs unauthenticated_def)

lemma mount_unparsable:
  assumes "s \<noteq> []"
  shows "mount now (Some (NotJson s)) = Inr (unauthenticated None)"
  using assms by (simp add: mount_defs unauthenticated_def)

lemma mount_expired:
  assumes "truthy (opt_prop v ''expiresAt'')"
    and "num_ge (Num now) (to_number (opt_prop v ''expiresAt''))"
  shows "mount now (Some (JsonText v)) = Inr (unauthenticated None)"
  using assms by (simp add: mount_defs unauthenticated_def)

lemma mount_no_expiry:
  assumes "\<not> truthy (opt_prop v ''expiresAt'')"
  shows "mount now (Some (JsonText v)) =
           Inr ((unauthenticated (Some (JsonText v)))
                  \<lparr>user := v, effect_dep := Some (opt_prop v ''expiresAt'')\<rparr>)"
  using assms by (simp add: mount_defs unauthenticated_def)

lemma mount_future:
  assumes "truthy (opt_prop v ''expiresAt'')"
    and "to_number (opt_prop v ''expiresAt'') = Num x" and "now < x"
  shows "mount now (Some (JsonText v)) =
           Inr ((unauthenticated (Some (JsonText v)))
                  \<lparr>user := v, logoutTimerRef := Some 1,
                    timers := [(1, if x - now \<le> max_delay then x else now + 1)],
                    last_handle := 1, effect_dep := Some (opt_prop v ''expiresAt'')\<rparr>)"
proof -
  have g: "get_prop v ''expiresAt'' = opt_prop v ''expiresAt''"
    using assms(1) by (rule opt_prop_truthy)
  have n: "opt_prop v ''expiresAt'' \<noteq> JUndefined" using assms(1) by auto
  show ?thesis
    using assms n
    by (simp add: mount_defs unauthenticated_def g scheduleAutoLogout_def setTimeout_def
        timer_delay_def clearTimeout_def)
qed

lemma mount_not_a_number:
  assumes "truthy (opt_prop v ''expiresAt'')"
    and "to_number (opt_prop v ''expiresAt'') = NaN"
  shows "mount now (Some (JsonText v)) =
           Inr ((unauthenticated (Some (JsonText v)))
                  \<lparr>user := v, logoutTimerRef := Some 1, timers := [(1, now + 1)],
                    last_handle := 1, effect_dep := Some (opt_prop v ''expiresAt'')\<rparr>)"
proof -
  have g: "get_prop v ''expiresAt'' = opt_prop v ''expiresAt''"
    using assms(1) by (rule opt_prop_truthy)
  have n: "opt_prop v ''expiresAt'' \<noteq> JUndefined" using assms(1) by auto
  show ?thesis
    using assms n
    by (simp add: mount_defs unauthenticated_def g scheduleAutoLogout_def setTimeout_def
        timer_delay_def clearTimeout_def)
qed

lemma mount_restored:
  assumes "\<not> (truthy (opt_prop v ''expiresAt'')
              \<and> num_ge (Num now) (to_number (opt_prop v ''expiresAt'')))"
  shows "\<exists>s. mount now (Some (JsonText v)) = Inr s \<and> user s = v \<and> ready s
           \<and> storage s = Some (JsonText v)"
  using assms
  by (rule not_expired_cases)
     (simp_all add: mount_no_expiry mount_not_a_number mount_future unauthenticated_def)

section \<open>Calls of login\<close>

text \<open>
  What a suspended call holds, what a settled call writes, and the state after a whole
  call whose session has not expired when it ends.
\<close>

lemma login_toStore_props:
  "\<exists>kvs. login_toStore now userData = JObj kvs"
  "get_prop (login_toStore now userData) ''expiresAt'' = login_expiresAt now userData"
  by (simp_all add: login_toStore_def get_prop_update)

lemma login_begin_Awaiting:
  assumes "login_begin now userData s = Awaiting t e"
  shows "e = login_expiresAt now userData"
    and "t = login_toStore now userData"
    and "truthy (get_prop t ''token'')"
    and "\<not> truthy (get_prop t ''role'')"
  using assms by (auto simp add: login_begin_def Let_def split: if_splits)

lemma login_begin_Completed:
  assumes "login_begin now userData s = Completed s'"
  shows "s' = login_finish now (login_toStore now userData) (login_expiresAt now userData) s"
  using assms by (auto simp add: login_begin_def Let_def split: if_splits)

lemma enrich_keeps:
  assumes "enrich (JObj kvs) res = Inr t"
  shows "\<exists>kvs'. t = JObj kvs'" and "get_prop t ''expiresAt'' = get_prop (JObj kvs) ''expiresAt''"
    and "get_prop t ''token'' = get_prop (JObj kvs) ''token''"
  using assms
  by (auto simp add: enrich_def Let_def assign_def get_prop_update split: sum.splits)

lemma login_resume_total:
  "\<exists>t. login_resume now toStore e res s = Inr (login_finish now t e s) \<and>
        (enrich toStore res = Inr t \<or> (\<exists>err. enrich toStore res = Inl err) \<and> t = toStore)"
  by (cases "enrich toStore res") (simp_all add: login_resume_def try_catch_def)

lemma login_finish_armed:
  assumes "timer_inv s" and "truthy e" and "to_number e = Num x" and "now < x"
    and "x - now \<le> max_delay"
  shows "login_finish now t e s =
           s\<lparr>storage := Some (item_string (JSON_stringify t)), user := t,
             logoutTimerRef := Some (Suc (last_handle s)),
             timers := [(Suc (last_handle s), x)], last_handle := Suc (last_handle s)\<rparr>"
  using assms by (simp add: login_finish_def scheduleAutoLogout_inv)

lemma commit_armed:
  assumes "armed x s" and "truthy (opt_prop (user s) ''expiresAt'')"
    and "to_number (opt_prop (user s) ''expiresAt'') = Num x" and "now < x"
    and "x - now \<le> max_delay"
  shows "armed x (commit now s) \<and> user (commit now s) = user s \<and>
         storage (commit now s) = storage s \<and> ready (commit now s) = ready s \<and>
         effect_dep (commit now s) = Some (opt_prop (user s) ''expiresAt'')"
  using assms armed_timer_inv [OF assms(1)]
  by (auto simp add: commit_def Let_def user_effect_def opt_prop_truthy
      scheduleAutoLogout_inv clearLogoutTimer_inv armed_iff split: option.splits)

lemma rerender_armed:
  assumes "armed x s" and "truthy (opt_prop (user s) ''expiresAt'')"
    and "to_number (opt_prop (user s) ''expiresAt'') = Num x" and "now < x"
    and "x - now \<le> max_delay"
  shows "armed x (rerender now s) \<and> user (rerender now s) = user s \<and>
         storage (rerender now s) = storage s \<and> ready (rerender now s) = ready s"
proof -
  note c = commit_armed [OF assms]
  from c have "armed x (commit now s)" by simp
  moreover from c assms have "truthy (opt_prop (user (commit now s)) ''expiresAt'')"
    and "to_number (opt_prop (user (commit now s)) ''expiresAt'') = Num x" by simp_all
  ultimately show ?thesis
    using commit_armed [of x "commit now s" now] c assms(4,5) by (simp add: rerender_def)
qed



lemma login_finish_rendered:
  assumes inv: "timer_inv s" and tr: "truthy e" and num: "to_number e = Num x" and lt: "now < x"
    and md: "x - now \<le> max_delay"
    and ex: "get_prop (JObj kvs) ''expiresAt'' = e"
  shows "armed x (rerender now (login_finish now (JObj kvs) e s))
       \<and> user (rerender now (login_finish now (JObj kvs) e s)) = JObj kvs
       \<and> storage (rerender now (login_finish now (JObj kvs) e s))
           = Some (item_string (JSON_stringify (JObj kvs)))
       \<and> ready (rerender now (login_finish now (JObj kvs) e s)) = ready s"
proof -
  let ?s1 = "login_finish now (JObj kvs) e s"
  have eq: "?s1 = s\<lparr>storage := Some (item_string (JSON_stringify (JObj kvs))), user := JObj kvs,
             logoutTimerRef := Some (Suc (last_handle s)),
             timers := [(Suc (last_handle s), x)], last_handle := Suc (last_handle s)\<rparr>"
    using inv tr num lt md by (rule login_finish_armed)
  have a: "armed x ?s1" by (simp add: eq armed_iff)
  have u: "user ?s1 = JObj kvs" by (simp add: eq)
  have st: "storage ?s1 = Some (item_string (JSON_stringify (JObj kvs)))" by (simp add: eq)
  have rd: "ready ?s1 = ready s" by (simp add: eq)
  have t1: "truthy (opt_prop (user ?s1) ''expiresAt'')" by (simp add: u ex tr)
  have t2: "to_number (opt_prop (user ?s1) ''expiresAt'') = Num x" by (simp add: u ex num)
  show ?thesis
    using rerender_armed [OF a t1 t2 lt md] u st rd by simp
qed

lemma login_resume_armed:
  assumes inv: "timer_inv s" and tr: "truthy e" and num: "to_number e = Num x"
    and lt: "now < x" and md: "x - now \<le> max_delay"
    and ex0: "get_prop (JObj kvs0) ''expiresAt'' = e"
  shows "\<exists>s' kvs. login_resume now (JObj kvs0) e res s = Inr s' \<and> armed x (rerender now s')
           \<and> user (rerender now s') = JObj kvs
           \<and> get_prop (JObj kvs) ''expiresAt'' = e
           \<and> get_prop (JObj kvs) ''token'' = get_prop (JObj kvs0) ''token''
           \<and> storage (rerender now s') = Some (item_string (JSON_stringify (JObj kvs)))
           \<and> ready (rerender now s') = ready s"
proof -
  obtain t' where res: "login_resume now (JObj kvs0) e res s = Inr (login_finish now t' e s)"
    and t': "enrich (JObj kvs0) res = Inr t' \<or> t' = JObj kvs0"
    using login_resume_total by blast
  have "\<exists>kvs. t' = JObj kvs \<and> get_prop (JObj kvs) ''expiresAt'' = e
          \<and> get_prop (JObj kvs) ''token'' = get_prop (JObj kvs0) ''token''"
    using t' ex0 enrich_keeps [of kvs0 res t'] by auto
  then obtain kvs where k: "t' = JObj kvs" and ex: "get_prop (JObj kvs) ''expiresAt'' = e"
    and tk: "get_prop (JObj kvs) ''token'' = get_prop (JObj kvs0) ''token''"
    by blast
  from login_finish_rendered [OF inv tr num lt md ex] res k ex tk
  show ?thesis by simp
qed

lemma login_call_armed:
  assumes inv: "timer_inv s" and le: "now \<le> now'"
    and tr: "truthy (login_expiresAt now userData)"
    and num: "to_number (login_expiresAt now userData) = Num x" and lt: "now' < x"
    and md: "x - now \<le> max_delay"
  shows "\<exists>s' kvs. login_call now now' userData res s = Inr s' \<and> armed x s'
           \<and> user s' = JObj kvs
           \<and> get_prop (JObj kvs) ''expiresAt'' = login_expiresAt now userData
           \<and> get_prop (JObj kvs) ''token'' = get_prop (login_toStore now userData) ''token''
           \<and> storage s' = Some (item_string (JSON_stringify (JObj kvs)))
           \<and> ready s' = ready s"
proof -
  obtain kvs0 where t0: "login_toStore now userData = JObj kvs0"
    using login_toStore_props(1) by blast
  have ex0: "get_prop (JObj kvs0) ''expiresAt'' = login_expiresAt now userData"
    using login_toStore_props(2) [of now userData] by (simp add: t0)
  show ?thesis
  proof (cases "login_begin now userData s")
    case (Completed s1)
    then have s1: "s1 = login_finish now (JObj kvs0) (login_expiresAt now userData) s"
      using login_begin_Completed [OF Completed] t0 by simp
    have "now < x" using le lt by simp
    from login_finish_rendered [OF inv tr num this md ex0] Completed s1 ex0 t0
    show ?thesis by (simp add: login_call_def)
  next
    case (Awaiting t e)
    note aw = login_begin_Awaiting [OF Awaiting]
    have t: "t = JObj kvs0" using aw(2) t0 by simp
    have md': "x - now' \<le> max_delay" using le md by simp
    have tr': "truthy e" and num': "to_number e = Num x" using aw(1) tr num by simp_all
    have ex': "get_prop (JObj kvs0) ''expiresAt'' = e" using ex0 aw(1) by simp
    from login_resume_armed [OF inv tr' num' lt md' ex', of res] Awaiting t t0 aw(1)
    show ?thesis by (auto simp add: login_call_def)
  qed
qed

lemma reachable_timer_inv:
  assumes "reachable s"
  shows "timer_inv s"
  using assms
proof (induction rule: reachable.induct)
  case (mounted now st s)
  then show ?case by (rule mount_timer_inv)
next
  case (login_completed s now userData s')
  then show ?case
    using login_begin_Completed [of now userData s s']
    by (simp add: rerender_timer_inv login_finish_timer_inv)
next
  case (login_settled s now0 userData s0 toStore expiresAt now res s')
  then show ?case
    using login_resume_total [of now toStore expiresAt res s]
    by (auto simp add: rerender_timer_inv login_finish_timer_inv)
next
  case (logged_out s now)
  then show ?case by (simp add: rerender_timer_inv logout_inv)
next
  case (clock s now)
  from clock.IH show ?case by (rule advance_clock_timer_inv)
qed

lemma timer_inv_length: "timer_inv s \<Longrightarrow> length (timers s) \<le> 1"
  by (erule timer_inv_cases) simp_all

lemma settled_session:
  assumes "login_begin now userData s0 = Awaiting toStore expiresAt"
    and "\<not> (truthy expiresAt \<and> num_ge (Num now') (to_number expiresAt))"
  shows "\<exists>s' kvs. login_resume now' toStore expiresAt res s = Inr s'
           \<and> user (rerender now' s') = JObj kvs
           \<and> (enrich toStore res = Inr (JObj kvs)
                \<or> (\<exists>err. enrich toStore res = Inl err) \<and> JObj kvs = toStore)
           \<and> get_prop (JObj kvs) ''token'' = get_prop toStore ''token''
           \<and> storage (rerender now' s') = Some (JsonText (jsonify (JObj kvs)))"
proof -
  note aw = login_begin_Awaiting [OF assms(1)]
  obtain kvs0 where t0: "toStore = JObj kvs0"
    using aw(2) login_toStore_props(1) [of now userData] by auto
  have ex0: "get_prop (JObj kvs0) ''expiresAt'' = expiresAt"
    using login_toStore_props(2) [of now userData] aw(1,2) t0 by simp
  obtain t' where res: "login_resume now' toStore expiresAt res s
                          = Inr (login_finish now' t' expiresAt s)"
    and t': "enrich toStore res = Inr t' \<or> (\<exists>err. enrich toStore res = Inl err) \<and> t' = toStore"
    using login_resume_total by blast
  have "\<exists>kvs. t' = JObj kvs \<and> get_prop (JObj kvs) ''expiresAt'' = expiresAt
            \<and> get_prop (JObj kvs) ''token'' = get_prop (JObj kvs0) ''token''"
    using t' ex0 enrich_keeps [of kvs0 res t'] t0 by auto
  then obtain kvs where k: "t' = JObj kvs"
    and ex: "get_prop (JObj kvs) ''expiresAt'' = expiresAt"
    and tk: "get_prop (JObj kvs) ''token'' = get_prop (JObj kvs0) ''token''"
    by blast
  let ?s1 = "login_finish now' (JObj kvs) expiresAt s"
  have u: "user ?s1 = JObj kvs"
    and st: "storage ?s1 = Some (JsonText (jsonify (JObj kvs)))"
    using assms(2) by (simp_all add: login_finish_fields JSON_stringify_JObj)
  have "\<not> (truthy (opt_prop (user ?s1) ''expiresAt'')
              \<and> num_ge (Num now') (to_number (opt_prop (user ?s1) ''expiresAt'')))"
    using assms(2) by (simp add: u ex)
  from rerender_keeps(1,2) [OF this] u st res k tk t0 t'
  show ?thesis by auto
qed

lemma login_finish_session:
  assumes "get_prop (JObj kvs) ''expiresAt'' = e"
  shows "(user (rerender now (login_finish now (JObj kvs) e s)) = JNull
            \<and> storage (rerender now (login_finish now (JObj kvs) e s)) = None)
       \<or> (user (rerender now (login_finish now (JObj kvs) e s)) = JObj kvs
            \<and> storage (rerender now (login_finish now (JObj kvs) e s))
                  = Some (JsonText (jsonify (JObj kvs))))"
proof (cases "truthy e \<and> num_ge (Num now) (to_number e)")
  case True
  let ?s1 = "login_finish now (JObj kvs) e s"
  have u: "user ?s1 = JNull" and st: "storage ?s1 = None"
    using True by (simp_all add: login_finish_fields)
  have "\<not> (truthy (opt_prop (user ?s1) ''expiresAt'')
              \<and> num_ge (Num now) (to_number (opt_prop (user ?s1) ''expiresAt'')))"
    by (simp add: u)
  from rerender_keeps(1,2) [OF this] u st show ?thesis by simp
next
  case False
  let ?s1 = "login_finish now (JObj kvs) e s"
  have u: "user ?s1 = JObj kvs" and st: "storage ?s1 = Some (JsonText (jsonify (JObj kvs)))"
    using False by (simp_all add: login_finish_fields JSON_stringify_JObj)
  have "\<not> (truthy (opt_prop (user ?s1) ''expiresAt'')
              \<and> num_ge (Num now) (to_number (opt_prop (user ?s1) ''expiresAt'')))"
    using False by (simp add: u assms)
  from rerender_keeps(1,2) [OF this] u st show ?thesis by simp
qed

lemma login_call_session:
  assumes "login_call now now' userData res s = Inr s1"
  shows "(user s1 = JNull \<and> storage s1 = None)
       \<or> (\<exists>kvs. user s1 = JObj kvs \<and> storage s1 = Some (JsonText (jsonify (JObj kvs))))"
proof -
  obtain kvs0 where t0: "login_toStore now userData = JObj kvs0"
    using login_toStore_props(1) by blast
  have ex0: "get_prop (JObj kvs0) ''expiresAt'' = login_expiresAt now userData"
    using login_toStore_props(2) [of now userData] by (simp add: t0)
  show ?thesis
  proof (cases "login_begin now userData s")
    case (Completed s')
    then have "s1 = rerender now (login_finish now (JObj kvs0) (login_expiresAt now userData) s)"
      using assms login_begin_Completed [OF Completed] t0 by (simp add: login_call_def)
    then show ?thesis using login_finish_session [OF ex0, of now s] by auto
  next
    case (Awaiting t e)
    note aw = login_begin_Awaiting [OF Awaiting]
    obtain t' where res: "login_resume now' t e res s = Inr (login_finish now' t' e s)"
      and t': "enrich t res = Inr t' \<or> t' = t"
      using login_resume_total by blast
    have "\<exists>kvs. t' = JObj kvs \<and> get_prop (JObj kvs) ''expiresAt'' = e"
      using t' ex0 aw(1,2) t0 enrich_keeps [of kvs0 res t'] by auto
    then obtain kvs where k: "t' = JObj kvs" and ex: "get_prop (JObj kvs) ''expiresAt'' = e"
      by blast
    have "s1 = rerender now' (login_finish now' (JObj kvs) e s)"
      using assms Awaiting res k by (simp add: login_call_def)
    then show ?thesis using login_finish_session [OF ex, of now' s] by auto
  qed
qed

lemma copy_props_distinct:
  assumes "distinct (map fst (acc @ kvs))"
  shows "copy_props acc kvs = acc @ kvs"
  using assms unfolding copy_props_def
proof (induction kvs arbitrary: acc)
  case Nil
  then show ?case by simp
next
  case (Cons p kvs)
  obtain k v where p: "p = (k, v)" by (cases p)
  have "k \<notin> fst ` set acc" using Cons.prems p by auto
  then have u: "AList.update k v acc = acc @ [(k, v)]"
    by (induction acc) auto
  have "distinct (map fst ((acc @ [(k, v)]) @ kvs))" using Cons.prems p by simp
  from Cons.IH [OF this] show ?case by (simp add: p u)
qed

lemma login_toStore_same:
  assumes "distinct (map fst kvs)" and "get_prop (JObj kvs) ''expiresAt'' = JInt e" and "e \<noteq> 0"
  shows "login_toStore now (JObj kvs) = JObj kvs"
    and "login_expiresAt now (JObj kvs) = JInt e"
proof -
  show e: "login_expiresAt now (JObj kvs) = JInt e"
    using assms(2,3) by (simp add: login_expiresAt_def js_or_def)
  have m: "map_of kvs ''expiresAt'' = Some (JInt e)"
    using assms(2) by (simp add: get_prop_JObj split: option.splits)
  have "copy_props [] kvs = kvs" using assms(1) copy_props_distinct [of "[]" kvs] by simp
  then show "login_toStore now (JObj kvs) = JObj kvs"
    using m by (simp add: login_toStore_def e update_triv)
qed

section \<open>The claims\<close>

subsection \<open>C1: what hydration restores\<close>

text \<open>
  Claim C1 says that every record restored at start-up has both \<^verbatim>\<open>token\<close> and
  \<^verbatim>\<open>expiresAt\<close>, and that a partial record is never restored. The first effect checks
  neither: it restores whatever \<^verbatim>\<open>JSON.parse\<close> returns unless that value has a truthy
  \<^verbatim>\<open>expiresAt\<close> that has passed. What holds instead (C1 as amended): whenever mounting
  leaves a value other than \<^verbatim>\<open>null\<close> in \<^verbatim>\<open>user\<close>, that value is the stored record
  exactly as parsed, the store still holds it, and the record is not expired (its
  \<^verbatim>\<open>expiresAt\<close> is falsy, or is not a number, or lies in the future); and every stored
  record without \<^verbatim>\<open>expiresAt\<close> is restored as it is, with no time-out pending.
\<close>

theorem restored_record_is_the_parsed_record:
  "(\<forall>s. mount now st = Inr s \<and> user s \<noteq> JNull \<longrightarrow>
      (\<exists>v. st = Some (JsonText v) \<and> user s = v \<and> storage s = st
         \<and> \<not> (truthy (opt_prop v ''expiresAt'')
               \<and> num_ge (Num now) (to_number (opt_prop v ''expiresAt'')))))
   \<and> (\<forall>v. opt_prop v ''expiresAt'' = JUndefined \<longrightarrow>
        (\<exists>s. mount now (Some (JsonText v)) = Inr s \<and> user s = v
           \<and> storage s = Some (JsonText v) \<and> timers s = [] \<and> logoutTimerRef s = None))"
proof (intro conjI allI impI)
  fix s
  assume a: "mount now st = Inr s \<and> user s \<noteq> JNull"
  show "\<exists>v. st = Some (JsonText v) \<and> user s = v \<and> storage s = st
         \<and> \<not> (truthy (opt_prop v ''expiresAt'')
               \<and> num_ge (Num now) (to_number (opt_prop v ''expiresAt'')))"
  proof (cases st)
    case None
    with a show ?thesis by (auto simp add: mount_absent unauthenticated_def)
  next
    case (Some t)
    show ?thesis
    proof (cases t)
      case (NotJson raw)
      with a Some show ?thesis
        by (cases "raw = []")
           (auto simp add: mount_empty_string mount_unparsable unauthenticated_def)
    next
      case (JsonText v)
      show ?thesis
      proof (cases "truthy (opt_prop v ''expiresAt'')
               \<and> num_ge (Num now) (to_number (opt_prop v ''expiresAt''))")
        case True
        then have "mount now (Some (JsonText v)) = Inr (unauthenticated None)"
          by (intro mount_expired) simp_all
        with a Some JsonText show ?thesis by (auto simp add: unauthenticated_def)
      next
        case False
        from mount_restored [OF False] a Some JsonText False show ?thesis by auto
      qed
    qed
  qed
next
  fix v :: jsval
  assume "opt_prop v ''expiresAt'' = JUndefined"
  then show "\<exists>s. mount now (Some (JsonText v)) = Inr s \<and> user s = v
           \<and> storage s = Some (JsonText v) \<and> timers s = [] \<and> logoutTimerRef s = None"
    by (simp add: mount_no_expiry unauthenticated_def)
qed

text \<open>
  The theorem at the clock reading 1000: the record
  \<^verbatim>\<open>{"token":"t2","expiresAt":5000}\<close> is restored as parsed, and so is the record
  \<^verbatim>\<open>{"token":"t2"}\<close>, which has no \<^verbatim>\<open>expiresAt\<close>.
\<close>

theorem restored_record_is_the_parsed_record_witness:
  "mount 1000 (Some (JsonText (JObj [(''token'', JStr ''t2''), (''expiresAt'', JInt 5000)])))
     = Inr \<lparr>storage = Some (JsonText (JObj [(''token'', JStr ''t2''), (''expiresAt'', JInt 5000)])),
            user = JObj [(''token'', JStr ''t2''), (''expiresAt'', JInt 5000)], ready = True,
            logoutTimerRef = Some 1, timers = [(1, 5000)], last_handle = 1,
            effect_dep = Some (JInt 5000)\<rparr>
   \<and> (\<exists>v. Some (JsonText (JObj [(''token'', JStr ''t2''), (''expiresAt'', JInt 5000)]))
            = Some (JsonText v)
          \<and> v = JObj [(''token'', JStr ''t2''), (''expiresAt'', JInt 5000)]
          \<and> \<not> (truthy (opt_prop v ''expiresAt'')
                \<and> num_ge (Num 1000) (to_number (opt_prop v ''expiresAt''))))
   \<and> opt_prop (JObj [(''token'', JStr ''t2'')]) ''expiresAt'' = JUndefined
   \<and> (\<exists>s. mount 1000 (Some (JsonText (JObj [(''token'', JStr ''t2'')]))) = Inr s
          \<and> user s = JObj [(''token'', JStr ''t2'')] \<and> timers s = [])"
proof -
  let ?v = "JObj [(''token'', JStr ''t2''), (''expiresAt'', JInt 5000)]"
  let ?s = "\<lparr>storage = Some (JsonText ?v), user = ?v, ready = True,
            logoutTimerRef = Some 1, timers = [(1, 5000)], last_handle = 1,
            effect_dep = Some (JInt 5000)\<rparr>"
  have m: "mount 1000 (Some (JsonText ?v)) = Inr ?s" by code_simp
  have u: "user ?s \<noteq> JNull" by simp
  have p: "opt_prop (JObj [(''token'', JStr ''t2'')]) ''expiresAt'' = JUndefined" by code_simp
  note th = restored_record_is_the_parsed_record [of 1000 "Some (JsonText ?v)"]
  from th m u have "\<exists>v. Some (JsonText ?v) = Some (JsonText v) \<and> user ?s = v
          \<and> storage ?s = Some (JsonText ?v)
          \<and> \<not> (truthy (opt_prop v ''expiresAt'')
                \<and> num_ge (Num 1000) (to_number (opt_prop v ''expiresAt'')))"
    by blast
  moreover from th p
  have "\<exists>s. mount 1000 (Some (JsonText (JObj [(''token'', JStr ''t2'')]))) = Inr s
          \<and> user s = JObj [(''token'', JStr ''t2'')] \<and> timers s = []"
    by blast
  ultimately show ?thesis using m p by auto
qed

text \<open>
  C1 as stated fails: with \<^verbatim>\<open>{"token":"t2"}\<close> in the store, a record that lacks
  \<^verbatim>\<open>expiresAt\<close>, mounting makes it the active session; and with
  \<^verbatim>\<open>{"expiresAt":5000}\<close> in the store, a record that lacks \<^verbatim>\<open>token\<close>, it does so too.
\<close>

theorem partial_record_is_restored:
  "mount 1000 (Some (JsonText (JObj [(''token'', JStr ''t2'')])))
     = Inr \<lparr>storage = Some (JsonText (JObj [(''token'', JStr ''t2'')])),
            user = JObj [(''token'', JStr ''t2'')], ready = True,
            logoutTimerRef = None, timers = [], last_handle = 0,
            effect_dep = Some JUndefined\<rparr>
   \<and> get_prop (JObj [(''token'', JStr ''t2'')]) ''expiresAt'' = JUndefined
   \<and> mount 1000 (Some (JsonText (JObj [(''expiresAt'', JInt 5000)])))
     = Inr \<lparr>storage = Some (JsonText (JObj [(''expiresAt'', JInt 5000)])),
            user = JObj [(''expiresAt'', JInt 5000)], ready = True,
            logoutTimerRef = Some 1, timers = [(1, 5000)], last_handle = 1,
            effect_dep = Some (JInt 5000)\<rparr>
   \<and> get_prop (JObj [(''expiresAt'', JInt 5000)]) ''token'' = JUndefined"
  by code_simp

subsection \<open>C2: a logout while the profile request is pending\<close>

text \<open>
  Claim C2 says that when \<^verbatim>\<open>logout\<close> runs while the profile request of a \<^verbatim>\<open>login\<close> is
  pending, the later result of that request is discarded and the state stays
  unauthenticated. The program has nothing that cancels or supersedes a suspended call.
  What holds instead (C2 as amended): when \<^verbatim>\<open>logout\<close> runs while the request is pending
  and the request then settles, with any outcome, before the session's expiry, the
  suspended call carries on; it writes its session, which has the token of the call, to
  the store and to \<^verbatim>\<open>user\<close>, and the final state is authenticated.
\<close>

theorem settled_login_applies_after_logout:
  assumes "login_begin now userData s = Awaiting toStore expiresAt"
    and "\<not> (truthy expiresAt \<and> num_ge (Num now') (to_number expiresAt))"
  shows "\<exists>s' kvs. login_resume now' toStore expiresAt res (rerender n (logout s)) = Inr s'
           \<and> user (rerender now' s') = JObj kvs
           \<and> get_prop (JObj kvs) ''token'' = get_prop toStore ''token''
           \<and> truthy (get_prop toStore ''token'')
           \<and> storage (rerender now' s') = Some (JsonText (jsonify (JObj kvs)))"
  using settled_session [OF assms, of res "rerender n (logout s)"]
    login_begin_Awaiting(3) [OF assms(1)]
  by blast

text \<open>
  The theorem on \<^verbatim>\<open>login({ token: "t1" })\<close> at 1000, \<^verbatim>\<open>logout()\<close> at 1500 and a
  profile request that is rejected at 2000.
\<close>

theorem settled_login_applies_after_logout_witness:
  "login_begin 1000 (JObj [(''token'', JStr ''t1'')]) (unauthenticated None)
     = Awaiting (JObj [(''token'', JStr ''t1''), (''expiresAt'', JInt 3601000)]) (JInt 3601000)
   \<and> \<not> (truthy (JInt 3601000) \<and> num_ge (Num 2000) (to_number (JInt 3601000)))
   \<and> (\<exists>s' kvs.
         login_resume 2000 (JObj [(''token'', JStr ''t1''), (''expiresAt'', JInt 3601000)])
           (JInt 3601000) Rejected (rerender 1500 (logout (unauthenticated None))) = Inr s'
         \<and> user (rerender 2000 s') = JObj kvs
         \<and> get_prop (JObj kvs) ''token'' = JStr ''t1''
         \<and> storage (rerender 2000 s') = Some (JsonText (jsonify (JObj kvs))))"
proof -
  let ?t = "JObj [(''token'', JStr ''t1''), (''expiresAt'', JInt 3601000)]"
  have b: "login_begin 1000 (JObj [(''token'', JStr ''t1'')]) (unauthenticated None)
             = Awaiting ?t (JInt 3601000)"
    by code_simp
  have n: "\<not> (truthy (JInt 3601000) \<and> num_ge (Num 2000) (to_number (JInt 3601000)))"
    by simp
  have k: "get_prop ?t ''token'' = JStr ''t1''" by code_simp
  from settled_login_applies_after_logout [OF b n, of Rejected 1500] b n k
  show ?thesis by auto
qed

text \<open>
  C2 as stated fails: \<^verbatim>\<open>login({ token: "t1" })\<close> is called at 1000 and suspended on
  its profile request, \<^verbatim>\<open>logout()\<close> runs at 1500, and the request is answered at 2000.
  The suspended call then stores its session and arms the time-out: the final state is
  authenticated.
\<close>

theorem logout_does_not_cancel_pending_login:
  "login_begin 1000 (JObj [(''token'', JStr ''t1'')]) (unauthenticated None)
     = Awaiting (JObj [(''token'', JStr ''t1''), (''expiresAt'', JInt 3601000)]) (JInt 3601000)
   \<and> rerender 1500 (logout (unauthenticated None)) = unauthenticated None
   \<and> map_sum id (rerender 2000)
        (login_resume 2000 (JObj [(''token'', JStr ''t1''), (''expiresAt'', JInt 3601000)])
           (JInt 3601000)
           (Fulfilled (JObj [(''user'', JObj [(''id'', JInt 7), (''role'', JStr ''admin'')])]))
           (unauthenticated None))
     = Inr \<lparr>storage = Some (JsonText (JObj [(''token'', JStr ''t1''),
                (''expiresAt'', JInt 3601000), (''role'', JStr ''admin''), (''id'', JInt 7)])),
            user = JObj [(''token'', JStr ''t1''), (''expiresAt'', JInt 3601000),
                         (''role'', JStr ''admin''), (''id'', JInt 7)],
            ready = True, logoutTimerRef = Some 2, timers = [(2, 3601000)], last_handle = 2,
            effect_dep = Some (JInt 3601000)\<rparr>"
  by code_simp

subsection \<open>C3: the default one-hour window\<close>

text \<open>
  Claim C3 is the scenario \<^verbatim>\<open>login({ token: "t1" })\<close> at the clock reading 1000 with
  no \<^verbatim>\<open>expiresAt\<close> supplied, and puts the resulting \<^verbatim>\<open>expiresAt\<close> at 4601000. The
  program computes \<^verbatim>\<open>Date.now() + 60 * 60 * 1000\<close>, which is 1000 + 3600000 = 3601000.
  What holds instead (C3 as amended): in every reachable state, whatever the profile
  request returns and whenever it settles between 1000 and the expiry, the call ends
  with a session that has the token \<^verbatim>\<open>"t1"\<close> and \<^verbatim>\<open>expiresAt = 3601000\<close> and with exactly
  one time-out pending, due at 3601000; nothing fires before that clock reading, and when
  the clock reaches 3601000 the time-out fires, \<^verbatim>\<open>user\<close> becomes \<^verbatim>\<open>null\<close>, the store is
  cleared and no time-out remains.
\<close>

theorem default_window_scenario:
  assumes "reachable s" and "1000 \<le> t" and "t < 3601000"
  shows "\<exists>s1 kvs. login_call 1000 t (JObj [(''token'', JStr ''t1'')]) res s = Inr s1
           \<and> user s1 = JObj kvs
           \<and> get_prop (JObj kvs) ''token'' = JStr ''t1''
           \<and> get_prop (JObj kvs) ''expiresAt'' = JInt 3601000
           \<and> armed 3601000 s1
           \<and> (\<forall>t'. t' < 3601000 \<longrightarrow> advance_clock t' s1 = s1)
           \<and> user (advance_clock 3601000 s1) = JNull
           \<and> storage (advance_clock 3601000 s1) = None
           \<and> timers (advance_clock 3601000 s1) = []"
proof -
  let ?d = "JObj [(''token'', JStr ''t1'')]"
  have e: "login_expiresAt 1000 ?d = JInt 3601000"
    by (simp add: login_expiresAt_def computeExpiry_def default_window_def get_prop_JObj js_or_def)
  have k: "get_prop (login_toStore 1000 ?d) ''token'' = JStr ''t1''"
    by (simp add: login_toStore_def copy_props_def get_prop_JObj)
  have inv: "timer_inv s" using assms(1) by (rule reachable_timer_inv)
  have "\<exists>s' kvs. login_call 1000 t ?d res s = Inr s' \<and> armed 3601000 s'
           \<and> user s' = JObj kvs
           \<and> get_prop (JObj kvs) ''expiresAt'' = login_expiresAt 1000 ?d
           \<and> get_prop (JObj kvs) ''token'' = get_prop (login_toStore 1000 ?d) ''token''
           \<and> storage s' = Some (item_string (JSON_stringify (JObj kvs)))
           \<and> ready s' = ready s"
    using inv assms(2) _ _ assms(3)
    by (rule login_call_armed) (simp_all add: e max_delay_def)
  then obtain s1 kvs where c: "login_call 1000 t ?d res s = Inr s1" and a: "armed 3601000 s1"
    and u: "user s1 = JObj kvs" and x: "get_prop (JObj kvs) ''expiresAt'' = JInt 3601000"
    and tk: "get_prop (JObj kvs) ''token'' = JStr ''t1''"
    by (auto simp add: e k)
  have "\<forall>t'. t' < 3601000 \<longrightarrow> advance_clock t' s1 = s1"
    using armed_not_due [OF a] by blast
  with c a u x tk armed_advance_clock [OF a, of 3601000] show ?thesis by auto
qed

text \<open>
  The theorem in the state right after mounting on an empty store, with a profile
  request that is rejected at once.
\<close>

theorem default_window_scenario_witness:
  "reachable (unauthenticated None) \<and> (1000 :: int) \<le> 1000 \<and> (1000 :: int) < 3601000
   \<and> (\<exists>s1 kvs.
         login_call 1000 1000 (JObj [(''token'', JStr ''t1'')]) Rejected (unauthenticated None)
           = Inr s1
         \<and> user s1 = JObj kvs
         \<and> get_prop (JObj kvs) ''expiresAt'' = JInt 3601000
         \<and> armed 3601000 s1
         \<and> advance_clock 3600999 s1 = s1
         \<and> user (advance_clock 3601000 s1) = JNull
         \<and> storage (advance_clock 3601000 s1) = None
         \<and> timers (advance_clock 3601000 s1) = [])"
proof -
  have r: "reachable (unauthenticated None)"
    using reachable.mounted [of 0 None] by (simp add: mount_absent)
  from default_window_scenario [OF r, of 1000 Rejected] r show ?thesis by auto
qed

text \<open>
  C3 as stated fails: the call at 1000 yields \<^verbatim>\<open>expiresAt = 3601000\<close>, not 4601000,
  and the only time-out is due at 3601000.
\<close>

theorem default_window_expiry_value:
  "login_call 1000 1000 (JObj [(''token'', JStr ''t1'')]) Rejected (unauthenticated None)
     = Inr \<lparr>storage = Some (JsonText (JObj [(''token'', JStr ''t1''),
                                             (''expiresAt'', JInt 3601000)])),
            user = JObj [(''token'', JStr ''t1''), (''expiresAt'', JInt 3601000)],
            ready = True, logoutTimerRef = Some 2, timers = [(2, 3601000)], last_handle = 2,
            effect_dep = Some (JInt 3601000)\<rparr>
   \<and> JInt 3601000 \<noteq> JInt 4601000"
  by code_simp

subsection \<open>C4: an expired record at start-up\<close>

text \<open>
  Claim C4 says that every stored record whose \<^verbatim>\<open>expiresAt\<close> is at most the current
  time is discarded at start-up. The test of the first effect is
  \<^verbatim>\<open>expiresAt && Date.now() >= Number(expiresAt)\<close>, and throughout the file a falsy
  \<^verbatim>\<open>expiresAt\<close> means "no expiry": the number 0 is falsy. What holds instead (C4 as
  amended): for every stored record whose \<^verbatim>\<open>expiresAt\<close> is a number other than 0 and
  at most the current time, mounting ends unauthenticated, with the store cleared, no
  time-out pending and \<^verbatim>\<open>ready\<close> set.
\<close>

theorem expired_record_discarded:
  assumes "opt_prop v ''expiresAt'' = JInt e" and "e \<noteq> 0" and "e \<le> now"
  shows "\<exists>s. mount now (Some (JsonText v)) = Inr s \<and> user s = JNull \<and> storage s = None
           \<and> timers s = [] \<and> logoutTimerRef s = None \<and> ready s"
proof -
  have "mount now (Some (JsonText v)) = Inr (unauthenticated None)"
    using assms by (intro mount_expired) simp_all
  then show ?thesis by (simp add: unauthenticated_def)
qed

text \<open>
  The theorem on the scenario of the specification: the record
  \<^verbatim>\<open>{ token: "t2", expiresAt: 500 }\<close> at the clock reading 1000.
\<close>

theorem expired_record_discarded_witness:
  "opt_prop (JObj [(''token'', JStr ''t2''), (''expiresAt'', JInt 500)]) ''expiresAt'' = JInt 500
   \<and> (500 :: int) \<noteq> 0 \<and> (500 :: int) \<le> 1000
   \<and> (\<exists>s. mount 1000 (Some (JsonText (JObj [(''token'', JStr ''t2''),
                                               (''expiresAt'', JInt 500)]))) = Inr s
          \<and> user s = JNull \<and> storage s = None \<and> timers s = []
          \<and> logoutTimerRef s = None \<and> ready s)"
proof -
  have p: "opt_prop (JObj [(''token'', JStr ''t2''), (''expiresAt'', JInt 500)]) ''expiresAt''
             = JInt 500"
    by code_simp
  from expired_record_discarded [OF p, of 1000] p show ?thesis by simp
qed

text \<open>
  C4 as stated fails: the record \<^verbatim>\<open>{"token":"t2","expiresAt":0}\<close> has
  \<^verbatim>\<open>expiresAt \<le> now\<close> at the clock reading 1000, and mounting restores it; the store
  keeps it and no time-out will ever end the session.
\<close>

theorem zero_expiry_is_restored:
  "mount 1000 (Some (JsonText (JObj [(''token'', JStr ''t2''), (''expiresAt'', JInt 0)])))
     = Inr \<lparr>storage = Some (JsonText (JObj [(''token'', JStr ''t2''),
                                             (''expiresAt'', JInt 0)])),
            user = JObj [(''token'', JStr ''t2''), (''expiresAt'', JInt 0)], ready = True,
            logoutTimerRef = None, timers = [], last_handle = 0,
            effect_dep = Some (JInt 0)\<rparr>"
  by code_simp

subsection \<open>C5: persisting and restoring\<close>

text \<open>
  Claim C5: for every valid session \<open>s\<close> whose \<^verbatim>\<open>expiresAt\<close> lies in the future,
  persisting \<open>s\<close> and then mounting yields \<open>s\<close> again as the in-memory session. A
  session is an object whose \<^verbatim>\<open>expiresAt\<close> is a number. The program persists a session
  in the last three statements of \<^verbatim>\<open>login\<close> (\<open>login_finish\<close>):
  \<^verbatim>\<open>setItem("user", JSON.stringify(toStore))\<close>, \<^verbatim>\<open>setUser(toStore)\<close> and the arming of
  the time-out. Proved, for every state \<open>s0\<close> in which that happens, at a clock reading
  \<open>now0\<close>, and every later clock reading \<open>now\<close> before the expiry at which the provider is
  mounted again on the store that the program left:
  \<^item> \<open>login_finish\<close> makes \<open>s\<close> the in-memory session, and mounting on the store it wrote
    restores what the JSON text of \<open>s\<close> denotes. That is \<open>s\<close> itself for every \<open>s\<close> that
    is JSON data, which is every valid persisted state. For any \<open>s\<close> (with one value
    for each property name) every property of the restored session reads as the JSON
    form of the same property of \<open>s\<close>: a property whose value is \<^verbatim>\<open>undefined\<close> is not
    written, and reads as \<^verbatim>\<open>undefined\<close> afterwards as before.
  \<^item> The same holds for whatever session \<open>s\<close> a whole call of \<^verbatim>\<open>login\<close> (with any
    argument and any outcome of its profile request) has left in memory.
  \<^item> \<^verbatim>\<open>login(s)\<close> itself leaves \<open>s\<close> in memory when \<open>s\<close> needs no enrichment (it has a
    role or no token) and its \<^verbatim>\<open>expiresAt\<close> is not 0.
\<close>

theorem persisted_session_round_trip:
  assumes "get_prop (JObj kvs) ''expiresAt'' = JInt e" and "now0 \<le> now" and "now < e"
  shows "user (login_finish now0 (JObj kvs) (JInt e) s0) = JObj kvs
       \<and> (\<exists>s. mount now (storage (login_finish now0 (JObj kvs) (JInt e) s0)) = Inr s
              \<and> user s = jsonify (JObj kvs)
              \<and> (json_value (JObj kvs) \<longrightarrow> user s = JObj kvs)
              \<and> (distinct (map fst kvs) \<longrightarrow>
                   (\<forall>k. get_prop (user s) k = jsonify (get_prop (JObj kvs) k)))
              \<and> storage s = storage (login_finish now0 (JObj kvs) (JInt e) s0)
              \<and> ready s)
       \<and> (\<forall>t t' userData res s1.
              login_call t t' userData res s0 = Inr s1 \<and> user s1 = JObj kvs \<longrightarrow>
              (\<exists>s. mount now (storage s1) = Inr s
                 \<and> user s = jsonify (user s1)
                 \<and> (json_value (user s1) \<longrightarrow> user s = user s1)
                 \<and> storage s = storage s1))
       \<and> (distinct (map fst kvs) \<and> e \<noteq> 0
            \<and> (truthy (get_prop (JObj kvs) ''role'') \<or> \<not> truthy (get_prop (JObj kvs) ''token''))
            \<longrightarrow> (\<exists>s1. login_call now0 t0 (JObj kvs) res0 s0 = Inr s1 \<and> user s1 = JObj kvs))"
proof -
  let ?s1 = "login_finish now0 (JObj kvs) (JInt e) s0"
  have live0: "\<not> (truthy (JInt e) \<and> num_ge (Num now0) (to_number (JInt e)))"
    using assms(2,3) by simp
  have u1: "user ?s1 = JObj kvs"
    and st1: "storage ?s1 = Some (JsonText (jsonify (JObj kvs)))"
    using live0 by (simp_all add: login_finish_fields JSON_stringify_JObj)
  obtain kvs' where j: "jsonify (JObj kvs) = JObj kvs'" by simp
  have "get_prop (JObj kvs') ''expiresAt'' = JInt e"
    using get_prop_jsonify_int [OF assms(1)] by (simp only: j)
  then have live: "\<not> (truthy (opt_prop (JObj kvs') ''expiresAt'')
              \<and> num_ge (Num now) (to_number (opt_prop (JObj kvs') ''expiresAt'')))"
    using assms(3) by simp
  from mount_restored [OF live]
  obtain s where m: "mount now (Some (JsonText (JObj kvs'))) = Inr s"
    and us: "user s = JObj kvs'" and rs: "ready s"
    and ss: "storage s = Some (JsonText (JObj kvs'))"
    by blast
  have 2: "\<exists>s. mount now (storage ?s1) = Inr s
              \<and> user s = jsonify (JObj kvs)
              \<and> (json_value (JObj kvs) \<longrightarrow> user s = JObj kvs)
              \<and> (distinct (map fst kvs) \<longrightarrow>
                   (\<forall>k. get_prop (user s) k = jsonify (get_prop (JObj kvs) k)))
              \<and> storage s = storage ?s1
              \<and> ready s"
  proof -
    have st: "storage ?s1 = Some (JsonText (JObj kvs'))" using st1 by (simp only: j)
    have a: "mount now (storage ?s1) = Inr s" using m by (simp only: st)
    have b: "user s = jsonify (JObj kvs)" using us by (simp only: j)
    have c: "json_value (JObj kvs) \<longrightarrow> user s = JObj kvs"
      using jsonify_id [of "JObj kvs"] b by simp
    have "get_prop (user s) k = jsonify (get_prop (JObj kvs) k)"
      if "distinct (map fst kvs)" for k
      using get_prop_jsonify [OF that, of k] by (simp only: b)
    then have d: "distinct (map fst kvs) \<longrightarrow>
                   (\<forall>k. get_prop (user s) k = jsonify (get_prop (JObj kvs) k))"
      by blast
    have e: "storage s = storage ?s1" using ss by (simp only: st)
    show ?thesis
      by (rule exI [of _ s]) (intro conjI a b c d e rs)
  qed
  have 3: "\<exists>s. mount now (storage s1) = Inr s \<and> user s = jsonify (user s1)
                 \<and> (json_value (user s1) \<longrightarrow> user s = user s1) \<and> storage s = storage s1"
    if c: "login_call t t' userData res s0 = Inr s1" and u: "user s1 = JObj kvs"
    for t t' userData res s1
  proof -
    have "storage s1 = Some (JsonText (jsonify (JObj kvs)))"
      using login_call_session [OF c] u by auto
    then have st: "storage s1 = Some (JsonText (JObj kvs'))" by (simp only: j)
    have a: "mount now (storage s1) = Inr s" using m by (simp only: st)
    have b: "user s = jsonify (user s1)" using us by (simp only: u j)
    have c: "json_value (user s1) \<longrightarrow> user s = user s1"
      using jsonify_id [of "user s1"] b by simp
    have e: "storage s = storage s1" using ss by (simp only: st)
    show ?thesis
      by (rule exI [of _ s]) (intro conjI a b c e)
  qed
  have 4: "\<exists>s1. login_call now0 t0 (JObj kvs) res0 s0 = Inr s1 \<and> user s1 = JObj kvs"
    if d: "distinct (map fst kvs)" and z: "e \<noteq> 0"
      and r: "truthy (get_prop (JObj kvs) ''role'') \<or> \<not> truthy (get_prop (JObj kvs) ''token'')"
  proof -
    note same = login_toStore_same [OF d assms(1) z, of now0]
    have b: "login_begin now0 (JObj kvs) s0 = Completed ?s1"
      using r by (auto simp add: login_begin_def Let_def same)
    have "\<not> (truthy (opt_prop (user ?s1) ''expiresAt'')
              \<and> num_ge (Num now0) (to_number (opt_prop (user ?s1) ''expiresAt'')))"
      using live0 by (simp add: u1 assms(1))
    from rerender_keeps(1) [OF this] b u1 show ?thesis by (simp add: login_call_def)
  qed
  from u1 2 3 4 show ?thesis by blast
qed

text \<open>
  The theorem on the session \<^verbatim>\<open>{ token: "t2", role: "admin", expiresAt: 5000 }\<close>,
  persisted by \<^verbatim>\<open>login\<close> at the clock reading 1000 in the state right after mounting on
  an empty store, and restored by mounting at 2000.
\<close>

theorem persisted_session_round_trip_witness:
  "get_prop (JObj [(''token'', JStr ''t2''), (''role'', JStr ''admin''),
                   (''expiresAt'', JInt 5000)]) ''expiresAt'' = JInt 5000
   \<and> (1000 :: int) \<le> 2000 \<and> (2000 :: int) < 5000
   \<and> json_value (JObj [(''token'', JStr ''t2''), (''role'', JStr ''admin''),
                        (''expiresAt'', JInt 5000)])
   \<and> distinct (map fst [(''token'', JStr ''t2''), (''role'', JStr ''admin''),
                         (''expiresAt'', JInt 5000)])
   \<and> truthy (get_prop (JObj [(''token'', JStr ''t2''), (''role'', JStr ''admin''),
                              (''expiresAt'', JInt 5000)]) ''role'')
   \<and> (\<exists>s1. login_call 1000 1000
               (JObj [(''token'', JStr ''t2''), (''role'', JStr ''admin''),
                      (''expiresAt'', JInt 5000)]) Rejected (unauthenticated None) = Inr s1
          \<and> user s1 = JObj [(''token'', JStr ''t2''), (''role'', JStr ''admin''),
                             (''expiresAt'', JInt 5000)]
          \<and> (\<exists>s. mount 2000 (storage s1) = Inr s \<and> user s = user s1
                 \<and> storage s = storage s1))
   \<and> (\<exists>s. mount 2000
              (storage (login_finish 1000
                 (JObj [(''token'', JStr ''t2''), (''role'', JStr ''admin''),
                        (''expiresAt'', JInt 5000)]) (JInt 5000) (unauthenticated None)))
              = Inr s
          \<and> user s = JObj [(''token'', JStr ''t2''), (''role'', JStr ''admin''),
                            (''expiresAt'', JInt 5000)]
          \<and> get_prop (user s) ''token'' = JStr ''t2''
          \<and> ready s)"
proof -
  let ?kvs = "[(''token'', JStr ''t2''), (''role'', JStr ''admin''), (''expiresAt'', JInt 5000)]"
  let ?s0 = "unauthenticated None"
  have p: "get_prop (JObj ?kvs) ''expiresAt'' = JInt 5000" by code_simp
  have l: "(1000 :: int) \<le> 2000" "(2000 :: int) < 5000" by simp_all
  have j: "json_value (JObj ?kvs)" by code_simp
  have d: "distinct (map fst ?kvs)" by simp
  have r: "truthy (get_prop (JObj ?kvs) ''role'')" by code_simp
  have z: "(5000 :: int) \<noteq> 0" by simp
  have g: "jsonify (get_prop (JObj ?kvs) ''token'') = JStr ''t2''" by code_simp
  note th = persisted_session_round_trip [OF p l, of ?s0 1000 Rejected]
  from th d z r
  obtain s1 where c: "login_call 1000 1000 (JObj ?kvs) Rejected ?s0 = Inr s1"
    and u1: "user s1 = JObj ?kvs"
    by blast
  from th c u1
  obtain s where m: "mount 2000 (storage s1) = Inr s" and us: "user s = jsonify (user s1)"
    and uj: "json_value (user s1) \<longrightarrow> user s = user s1" and ss: "storage s = storage s1"
    by blast
  from uj j u1 have us1: "user s = user s1" by simp
  have A: "\<exists>s1. login_call 1000 1000 (JObj ?kvs) Rejected ?s0 = Inr s1
          \<and> user s1 = JObj ?kvs
          \<and> (\<exists>s. mount 2000 (storage s1) = Inr s \<and> user s = user s1 \<and> storage s = storage s1)"
    using c u1 m us1 ss by blast
  from th
  obtain s' where m': "mount 2000 (storage (login_finish 1000 (JObj ?kvs) (JInt 5000) ?s0)) = Inr s'"
    and uj': "json_value (JObj ?kvs) \<longrightarrow> user s' = JObj ?kvs"
    and pk: "distinct (map fst ?kvs) \<longrightarrow>
               (\<forall>k. get_prop (user s') k = jsonify (get_prop (JObj ?kvs) k))"
    and rd: "ready s'"
    by blast
  from uj' j have u': "user s' = JObj ?kvs" by (rule mp)
  from pk d have "\<forall>k. get_prop (user s') k = jsonify (get_prop (JObj ?kvs) k)" by (rule mp)
  then have "get_prop (user s') ''token'' = jsonify (get_prop (JObj ?kvs) ''token'')"
    by (rule spec)
  then have tk: "get_prop (user s') ''token'' = JStr ''t2''" by (simp only: g)
  have B: "\<exists>s. mount 2000 (storage (login_finish 1000 (JObj ?kvs) (JInt 5000) ?s0)) = Inr s
          \<and> user s = JObj ?kvs \<and> get_prop (user s) ''token'' = JStr ''t2'' \<and> ready s"
    by (rule exI [of _ s']) (intro conjI m' u' tk rd)
  show ?thesis
    by (intro conjI) (rule p l j d r A B)+
qed

subsection \<open>C6: a stored value that is not a session\<close>

text \<open>
  Claim C6 says that every stored value that is not valid serialised session data
  leaves the provider unauthenticated with the store cleared, and that no exception
  escapes. The \<^verbatim>\<open>catch\<close> of the first effect is reached only when \<^verbatim>\<open>JSON.parse\<close> throws;
  a value that parses is not examined further. What holds instead (C6 as amended):
  mounting never ends in an exception, whatever the store holds; for every stored
  string that is not empty and that \<^verbatim>\<open>JSON.parse\<close> rejects, mounting ends
  unauthenticated, with the store cleared, no time-out pending and \<^verbatim>\<open>ready\<close> set; and a
  stored text that parses is treated as a session whatever its value is: every value
  without a truthy \<^verbatim>\<open>expiresAt\<close> (a number, a string, an array, any object without an
  expiry) becomes \<^verbatim>\<open>user\<close>, and the store keeps it.
\<close>

theorem unparsable_record_discarded:
  "(\<exists>s. mount now st = Inr s)
   \<and> (raw \<noteq> [] \<longrightarrow>
        (\<exists>s. mount now (Some (NotJson raw)) = Inr s \<and> user s = JNull \<and> storage s = None
           \<and> timers s = [] \<and> logoutTimerRef s = None \<and> ready s))
   \<and> (\<not> truthy (opt_prop v ''expiresAt'')
        \<longrightarrow> (\<exists>s. mount now (Some (JsonText v)) = Inr s \<and> user s = v
               \<and> storage s = Some (JsonText v) \<and> ready s))"
proof -
  obtain s1 where "hydrate now (initial st) = Inr s1"
    using hydrate_total by blast
  then have "\<exists>s. mount now st = Inr s" by (simp add: mount_def Let_def)
  moreover have "\<exists>s. mount now (Some (NotJson raw)) = Inr s \<and> user s = JNull
           \<and> storage s = None \<and> timers s = [] \<and> logoutTimerRef s = None \<and> ready s"
    if "raw \<noteq> []"
    using mount_unparsable [OF that] by (simp add: unauthenticated_def)
  moreover have "\<exists>s. mount now (Some (JsonText v)) = Inr s \<and> user s = v
               \<and> storage s = Some (JsonText v) \<and> ready s"
    if "\<not> truthy (opt_prop v ''expiresAt'')"
    using mount_no_expiry [OF that] by (simp add: unauthenticated_def)
  ultimately show ?thesis by blast
qed

text \<open>
  The theorem on the stored string \<^verbatim>\<open>{oops\<close>, and on the stored text
  \<^verbatim>\<open>["a"]\<close>, an array, which is restored.
\<close>

theorem unparsable_record_discarded_witness:
  "''{oops'' \<noteq> []
   \<and> (\<exists>s. mount 1000 (Some (NotJson ''{oops'')) = Inr s \<and> user s = JNull \<and> storage s = None
          \<and> timers s = [] \<and> logoutTimerRef s = None \<and> ready s)
   \<and> \<not> truthy (opt_prop (JArr [JStr ''a'']) ''expiresAt'')
   \<and> (\<exists>s. mount 1000 (Some (JsonText (JArr [JStr ''a'']))) = Inr s
          \<and> user s = JArr [JStr ''a''] \<and> storage s = Some (JsonText (JArr [JStr ''a''])))"
proof -
  have n: "''{oops'' \<noteq> []" by simp
  have e: "opt_prop (JArr [JStr ''a'']) ''expiresAt'' = JUndefined" by code_simp
  have l: "\<not> truthy (opt_prop (JArr [JStr ''a'']) ''expiresAt'')"
    by (simp add: e)
  note th = unparsable_record_discarded
              [of 1000 "Some (NotJson ''{oops'')" "''{oops''" "JArr [JStr ''a'']"]
  from th n have 1: "\<exists>s. mount 1000 (Some (NotJson ''{oops'')) = Inr s \<and> user s = JNull
          \<and> storage s = None \<and> timers s = [] \<and> logoutTimerRef s = None \<and> ready s"
    by blast
  from th l have 2: "\<exists>s. mount 1000 (Some (JsonText (JArr [JStr ''a'']))) = Inr s
          \<and> user s = JArr [JStr ''a''] \<and> storage s = Some (JsonText (JArr [JStr ''a'']))"
    by blast
  show ?thesis
    by (intro conjI) (rule n 1 l 2)+
qed

text \<open>
  C6 as stated fails: the stored text \<^verbatim>\<open>42\<close> is not a serialised session, but it
  parses; mounting makes the number 42 the value of \<^verbatim>\<open>user\<close>, which is truthy, and
  leaves the store as it is.
\<close>

theorem parsable_non_session_is_restored:
  "mount 1000 (Some (JsonText (JInt 42)))
     = Inr \<lparr>storage = Some (JsonText (JInt 42)), user = JInt 42, ready = True,
            logoutTimerRef = None, timers = [], last_handle = 0,
            effect_dep = Some JUndefined\<rparr>
   \<and> truthy (JInt 42)"
  by code_simp

subsection \<open>C7: the malformed-response rule of loginUser\<close>

text \<open>
  Claim C7: on a response that arrived, \<^verbatim>\<open>loginUser\<close> throws exactly when the response
  lacks \<^verbatim>\<open>token\<close> or lacks \<^verbatim>\<open>user\<close>, and then returns nothing from which a session could
  be made; otherwise it returns the pair of the normalised user and the token. The
  test of the program is \<^verbatim>\<open>!token || !user\<close>, so a field counts as present when its
  value is truthy: a field that is missing, \<^verbatim>\<open>null\<close>, empty, \<^verbatim>\<open>0\<close> or \<^verbatim>\<open>false\<close> is
  lacking. In particular a response without the property \<^verbatim>\<open>token\<close> or without the
  property \<^verbatim>\<open>user\<close> makes the call throw; and when the call throws, the login page
  does not call \<^verbatim>\<open>login\<close>: the state of the session manager stays as it was.
\<close>

theorem loginUser_malformed_rule:
  "loginUser (Fulfilled data) =
     (if truthy (opt_prop data ''token'') \<and> truthy (opt_prop data ''user'')
      then Inr (JObj [(''user'', normalizeUser (opt_prop data ''user'')),
                      (''token'', opt_prop data ''token'')])
      else Inl MalformedLoginResponse)
   \<and> (opt_prop data ''token'' = JUndefined \<or> opt_prop data ''user'' = JUndefined
        \<longrightarrow> loginUser (Fulfilled data) = Inl MalformedLoginResponse)
   \<and> (loginUser (Fulfilled data) = Inl MalformedLoginResponse
        \<longrightarrow> handleSubmit username password now now' (Fulfilled data) profile s = s)"
  by (auto simp add: loginUser_def handleSubmit_def Let_def)

text \<open>
  The theorem on the response \<^verbatim>\<open>{ user: { _id: "a1" } }\<close>, which has no token, and on
  the response \<^verbatim>\<open>{ user: { _id: "a1" }, token: "jwt" }\<close>.
\<close>

theorem loginUser_malformed_rule_witness:
  "opt_prop (JObj [(''user'', JObj [(''_id'', JStr ''a1'')])]) ''token'' = JUndefined
   \<and> loginUser (Fulfilled (JObj [(''user'', JObj [(''_id'', JStr ''a1'')])]))
       = Inl MalformedLoginResponse
   \<and> handleSubmit ''bob'' ''secret'' 1000 1000
         (Fulfilled (JObj [(''user'', JObj [(''_id'', JStr ''a1'')])])) Rejected
         (unauthenticated None)
       = unauthenticated None
   \<and> loginUser (Fulfilled (JObj [(''user'', JObj [(''_id'', JStr ''a1'')]),
                                  (''token'', JStr ''jwt'')]))
       = Inr (JObj [(''user'', normalizeUser (JObj [(''_id'', JStr ''a1'')])),
                    (''token'', JStr ''jwt'')])"
proof -
  let ?d1 = "JObj [(''user'', JObj [(''_id'', JStr ''a1'')])]"
  let ?d2 = "JObj [(''user'', JObj [(''_id'', JStr ''a1'')]), (''token'', JStr ''jwt'')]"
  have p: "opt_prop ?d1 ''token'' = JUndefined" by code_simp
  have q: "opt_prop ?d2 ''token'' = JStr ''jwt''"
    "opt_prop ?d2 ''user'' = JObj [(''_id'', JStr ''a1'')]"
    by code_simp+
  from loginUser_malformed_rule [of ?d1 "''bob''" "''secret''" 1000 1000 Rejected
         "unauthenticated None"]
       loginUser_malformed_rule [of ?d2] p q
  show ?thesis by simp
qed

subsection \<open>C8: at most one time-out\<close>

text \<open>
  Claim C8 says that at most one expiry time-out is pending at any time, because arming
  cancels the one armed before, and that after every pair of successive calls of
  \<^verbatim>\<open>login\<close> exactly one time-out remains, bound to the \<^verbatim>\<open>expiresAt\<close> of the second call
  and never to the first's. The first part holds. The second fails when the two calls
  overlap: a call of \<^verbatim>\<open>login\<close> that awaits its profile request writes its session and
  arms its time-out when that request settles, and nothing orders the calls or lets a
  later call supersede an earlier one; the call that settles last wins. What holds
  instead (C8 as amended), in every reachable state:
  \<^item> at most one time-out is pending, and \<^verbatim>\<open>clearLogoutTimer\<close>, with which
    \<^verbatim>\<open>scheduleAutoLogout\<close> begins, leaves none;
  \<^item> after a call of \<^verbatim>\<open>login\<close> that has ended, followed by a second call whose
    \<^verbatim>\<open>expiresAt\<close> (given, or computed from the default window) is a number \<open>x\<close> that is
    still in the future when the call ends and no more than \<open>max_delay\<close> ahead, exactly
    one time-out is pending, due at \<open>x\<close>, with its handle in the ref, and the session
    carries that \<^verbatim>\<open>expiresAt\<close>;
  \<^item> whenever the profile request of any suspended call settles, with such an
    \<^verbatim>\<open>expiresAt\<close>, exactly one time-out is pending afterwards, due at the \<^verbatim>\<open>expiresAt\<close>
    of that call, and the session is that call's: of two overlapping calls it is the one
    that settles last, which can be the first.
\<close>

theorem single_timer:
  assumes "reachable s"
  shows "length (timers s) \<le> 1
       \<and> timers (clearLogoutTimer s) = []
       \<and> (\<forall>n1 n1' d1 r1 s1 n2 n2' d2 r2 x.
            login_call n1 n1' d1 r1 s = Inr s1 \<and> n2 \<le> n2'
            \<and> truthy (login_expiresAt n2 d2)
            \<and> to_number (login_expiresAt n2 d2) = Num x \<and> n2' < x \<and> x - n2 \<le> max_delay
            \<longrightarrow> (\<exists>s2 h. login_call n2 n2' d2 r2 s1 = Inr s2 \<and> timers s2 = [(h, x)]
                     \<and> logoutTimerRef s2 = Some h
                     \<and> opt_prop (user s2) ''expiresAt'' = login_expiresAt n2 d2))
       \<and> (\<forall>n0 d s0 t e now res x.
            login_begin n0 d s0 = Awaiting t e
            \<and> truthy e \<and> to_number e = Num x \<and> now < x \<and> x - now \<le> max_delay
            \<longrightarrow> (\<exists>s' h. login_resume now t e res s = Inr s'
                     \<and> timers (rerender now s') = [(h, x)]
                     \<and> logoutTimerRef (rerender now s') = Some h
                     \<and> opt_prop (user (rerender now s')) ''expiresAt'' = e
                     \<and> opt_prop (user (rerender now s')) ''token'' = get_prop t ''token''))"
proof -
  have inv: "timer_inv s" using assms by (rule reachable_timer_inv)
  have 1: "length (timers s) \<le> 1" using inv by (rule timer_inv_length)
  have 2: "timers (clearLogoutTimer s) = []" using inv by (simp add: clearLogoutTimer_inv)
  have 3: "\<exists>s2 h. login_call n2 n2' d2 r2 s1 = Inr s2 \<and> timers s2 = [(h, x)]
                     \<and> logoutTimerRef s2 = Some h
                     \<and> opt_prop (user s2) ''expiresAt'' = login_expiresAt n2 d2"
    if c: "login_call n1 n1' d1 r1 s = Inr s1" and le: "n2 \<le> n2'"
      and tr: "truthy (login_expiresAt n2 d2)"
      and num: "to_number (login_expiresAt n2 d2) = Num x" and lt: "n2' < x"
      and md: "x - n2 \<le> max_delay"
    for n1 n1' d1 r1 s1 n2 n2' d2 r2 x
  proof -
    have "reachable s1"
    proof (cases "login_begin n1 d1 s")
      case (Completed s')
      with c have "s1 = rerender n1 s'" by (simp add: login_call_def)
      then show ?thesis using reachable.login_completed [OF assms Completed] by simp
    next
      case (Awaiting t e)
      with c obtain s' where r: "login_resume n1' t e r1 s = Inr s'" and "s1 = rerender n1' s'"
        by (auto simp add: login_call_def split: sum.splits)
      then show ?thesis using reachable.login_settled [OF assms Awaiting r] by simp
    qed
    then have "timer_inv s1" by (rule reachable_timer_inv)
    from login_call_armed [OF this le tr num lt md, of r2]
    show ?thesis by (auto simp add: armed_iff)
  qed
  have 4: "\<exists>s' h. login_resume now t e res s = Inr s'
                     \<and> timers (rerender now s') = [(h, x)]
                     \<and> logoutTimerRef (rerender now s') = Some h
                     \<and> opt_prop (user (rerender now s')) ''expiresAt'' = e
                     \<and> opt_prop (user (rerender now s')) ''token'' = get_prop t ''token''"
    if b: "login_begin n0 d s0 = Awaiting t e" and tr: "truthy e"
      and num: "to_number e = Num x" and lt: "now < x" and md: "x - now \<le> max_delay"
    for n0 d s0 t e now res x
  proof -
    note aw = login_begin_Awaiting [OF b]
    obtain kvs0 where t0: "t = JObj kvs0"
      using aw(2) login_toStore_props(1) [of n0 d] by auto
    have ex0: "get_prop (JObj kvs0) ''expiresAt'' = e"
      using login_toStore_props(2) [of n0 d] aw(1,2) t0 by simp
    from login_resume_armed [OF inv tr num lt md ex0, of res]
    show ?thesis by (auto simp add: armed_iff t0)
  qed
  from 1 2 3 4 show ?thesis by blast
qed

text \<open>
  The theorem in the state right after mounting on an empty store:
  \<^verbatim>\<open>login({ token: "t1" })\<close> at 1000, ended, and then
  \<^verbatim>\<open>login({ token: "t9", role: "admin" })\<close> at 2000 leave one time-out, due at 3602000;
  and a call \<^verbatim>\<open>login({ token: "t1" })\<close> begun at 1000 whose profile request is rejected
  at 3000 leaves one time-out, due at 3601000.
\<close>

theorem single_timer_witness:
  "reachable (unauthenticated None)
   \<and> length (timers (unauthenticated None)) \<le> 1
   \<and> login_call 1000 1000 (JObj [(''token'', JStr ''t1'')]) Rejected (unauthenticated None)
       = Inr \<lparr>storage = Some (JsonText (JObj [(''token'', JStr ''t1''),
                                               (''expiresAt'', JInt 3601000)])),
              user = JObj [(''token'', JStr ''t1''), (''expiresAt'', JInt 3601000)],
              ready = True, logoutTimerRef = Some 2, timers = [(2, 3601000)],
              last_handle = 2, effect_dep = Some (JInt 3601000)\<rparr>
   \<and> (\<exists>s2 h.
         login_call 2000 2000 (JObj [(''token'', JStr ''t9''), (''role'', JStr ''admin'')])
           Rejected
           \<lparr>storage = Some (JsonText (JObj [(''token'', JStr ''t1''),
                                            (''expiresAt'', JInt 3601000)])),
             user = JObj [(''token'', JStr ''t1''), (''expiresAt'', JInt 3601000)],
             ready = True, logoutTimerRef = Some 2, timers = [(2, 3601000)],
             last_handle = 2, effect_dep = Some (JInt 3601000)\<rparr>
           = Inr s2
         \<and> timers s2 = [(h, 3602000)] \<and> logoutTimerRef s2 = Some h)
   \<and> login_begin 1000 (JObj [(''token'', JStr ''t1'')]) (unauthenticated None)
       = Awaiting (JObj [(''token'', JStr ''t1''), (''expiresAt'', JInt 3601000)])
           (JInt 3601000)
   \<and> (\<exists>s' h.
         login_resume 3000 (JObj [(''token'', JStr ''t1''), (''expiresAt'', JInt 3601000)])
           (JInt 3601000) Rejected (unauthenticated None) = Inr s'
         \<and> timers (rerender 3000 s') = [(h, 3601000)]
         \<and> logoutTimerRef (rerender 3000 s') = Some h)"
proof -
  let ?d2 = "JObj [(''token'', JStr ''t9''), (''role'', JStr ''admin'')]"
  let ?t1 = "JObj [(''token'', JStr ''t1''), (''expiresAt'', JInt 3601000)]"
  let ?s1 = "\<lparr>storage = Some (JsonText ?t1), user = ?t1,
              ready = True, logoutTimerRef = Some 2, timers = [(2, 3601000)],
              last_handle = 2, effect_dep = Some (JInt 3601000)\<rparr>"
  have r: "reachable (unauthenticated None)"
    using reachable.mounted [of 0 None] by (simp add: mount_absent)
  have c: "login_call 1000 1000 (JObj [(''token'', JStr ''t1'')]) Rejected (unauthenticated None)
             = Inr ?s1"
    by code_simp
  have e: "truthy (login_expiresAt 2000 ?d2)"
    "to_number (login_expiresAt 2000 ?d2) = Num 3602000"
    by code_simp+
  have t: "(2000 :: int) \<le> 2000" "(2000 :: int) < 3602000" "(3602000 :: int) - 2000 \<le> max_delay"
    by (simp_all add: max_delay_def)
  have b: "login_begin 1000 (JObj [(''token'', JStr ''t1'')]) (unauthenticated None)
             = Awaiting ?t1 (JInt 3601000)"
    by code_simp
  have f: "truthy (JInt 3601000)" "to_number (JInt 3601000) = Num 3601000"
    "(3000 :: int) < 3601000" "(3601000 :: int) - 3000 \<le> max_delay"
    by (simp_all add: max_delay_def)
  note th = single_timer [OF r]
  from th have 1: "length (timers (unauthenticated None)) \<le> 1" by (rule conjunct1)
  from th c e t
  have "\<exists>s2 h. login_call 2000 2000 ?d2 Rejected ?s1 = Inr s2 \<and> timers s2 = [(h, 3602000)]
          \<and> logoutTimerRef s2 = Some h
          \<and> opt_prop (user s2) ''expiresAt'' = login_expiresAt 2000 ?d2"
    by blast
  then have 2: "\<exists>s2 h. login_call 2000 2000 ?d2 Rejected ?s1 = Inr s2
          \<and> timers s2 = [(h, 3602000)] \<and> logoutTimerRef s2 = Some h"
    by blast
  from th b f
  have "\<exists>s' h. login_resume 3000 ?t1 (JInt 3601000) Rejected (unauthenticated None) = Inr s'
          \<and> timers (rerender 3000 s') = [(h, 3601000)]
          \<and> logoutTimerRef (rerender 3000 s') = Some h
          \<and> opt_prop (user (rerender 3000 s')) ''expiresAt'' = JInt 3601000
          \<and> opt_prop (user (rerender 3000 s')) ''token'' = get_prop ?t1 ''token''"
    by blast
  then have 3: "\<exists>s' h. login_resume 3000 ?t1 (JInt 3601000) Rejected (unauthenticated None) = Inr s'
          \<and> timers (rerender 3000 s') = [(h, 3601000)]
          \<and> logoutTimerRef (rerender 3000 s') = Some h"
    by blast
  show ?thesis
    by (intro conjI) (rule r 1 c 2 b 3)+
qed

text \<open>
  C8 as stated fails: in the state right after mounting on an empty store,
  \<^verbatim>\<open>login({ token: "t1" })\<close> is called at 1000 and \<^verbatim>\<open>login({ token: "t2" })\<close> at 2000;
  both await their profile request. The request of the second call is rejected at
  2500, that of the first at 3000. In the reachable state that results the one pending
  time-out is due at 3601000, the \<^verbatim>\<open>expiresAt\<close> of the first call, and the session is the
  first call's.
\<close>

theorem overlapping_logins_first_wins:
  "login_begin 1000 (JObj [(''token'', JStr ''t1'')]) (unauthenticated None)
     = Awaiting (JObj [(''token'', JStr ''t1''), (''expiresAt'', JInt 3601000)]) (JInt 3601000)
   \<and> login_begin 2000 (JObj [(''token'', JStr ''t2'')]) (unauthenticated None)
     = Awaiting (JObj [(''token'', JStr ''t2''), (''expiresAt'', JInt 3602000)]) (JInt 3602000)
   \<and> map_sum id (rerender 2500)
        (login_resume 2500 (JObj [(''token'', JStr ''t2''), (''expiresAt'', JInt 3602000)])
           (JInt 3602000) Rejected (unauthenticated None))
     = Inr \<lparr>storage = Some (JsonText (JObj [(''token'', JStr ''t2''),
                                             (''expiresAt'', JInt 3602000)])),
            user = JObj [(''token'', JStr ''t2''), (''expiresAt'', JInt 3602000)],
            ready = True, logoutTimerRef = Some 2, timers = [(2, 3602000)], last_handle = 2,
            effect_dep = Some (JInt 3602000)\<rparr>
   \<and> map_sum id (rerender 3000)
        (login_resume 3000 (JObj [(''token'', JStr ''t1''), (''expiresAt'', JInt 3601000)])
           (JInt 3601000) Rejected
           \<lparr>storage = Some (JsonText (JObj [(''token'', JStr ''t2''),
                                            (''expiresAt'', JInt 3602000)])),
             user = JObj [(''token'', JStr ''t2''), (''expiresAt'', JInt 3602000)],
             ready = True, logoutTimerRef = Some 2, timers = [(2, 3602000)], last_handle = 2,
             effect_dep = Some (JInt 3602000)\<rparr>)
     = Inr \<lparr>storage = Some (JsonText (JObj [(''token'', JStr ''t1''),
                                             (''expiresAt'', JInt 3601000)])),
            user = JObj [(''token'', JStr ''t1''), (''expiresAt'', JInt 3601000)],
            ready = True, logoutTimerRef = Some 4, timers = [(4, 3601000)], last_handle = 4,
            effect_dep = Some (JInt 3601000)\<rparr>
   \<and> reachable
        \<lparr>storage = Some (JsonText (JObj [(''token'', JStr ''t1''),
                                         (''expiresAt'', JInt 3601000)])),
          user = JObj [(''token'', JStr ''t1''), (''expiresAt'', JInt 3601000)],
          ready = True, logoutTimerRef = Some 4, timers = [(4, 3601000)], last_handle = 4,
          effect_dep = Some (JInt 3601000)\<rparr>"
proof -
  let ?t1 = "JObj [(''token'', JStr ''t1''), (''expiresAt'', JInt 3601000)]"
  let ?t2 = "JObj [(''token'', JStr ''t2''), (''expiresAt'', JInt 3602000)]"
  let ?s0 = "unauthenticated None"
  let ?s2 = "\<lparr>storage = Some (JsonText ?t2), user = ?t2,
            ready = True, logoutTimerRef = Some 2, timers = [(2, 3602000)], last_handle = 2,
            effect_dep = Some (JInt 3602000)\<rparr>"
  let ?s3 = "\<lparr>storage = Some (JsonText ?t1), user = ?t1,
            ready = True, logoutTimerRef = Some 4, timers = [(4, 3601000)], last_handle = 4,
            effect_dep = Some (JInt 3601000)\<rparr>"
  have b1: "login_begin 1000 (JObj [(''token'', JStr ''t1'')]) ?s0 = Awaiting ?t1 (JInt 3601000)"
    by code_simp
  have b2: "login_begin 2000 (JObj [(''token'', JStr ''t2'')]) ?s0 = Awaiting ?t2 (JInt 3602000)"
    by code_simp
  have r2: "map_sum id (rerender 2500) (login_resume 2500 ?t2 (JInt 3602000) Rejected ?s0)
              = Inr ?s2"
    by code_simp
  have r3: "map_sum id (rerender 3000) (login_resume 3000 ?t1 (JInt 3601000) Rejected ?s2)
              = Inr ?s3"
    by code_simp
  have r0: "reachable ?s0"
    using reachable.mounted [of 0 None] by (simp add: mount_absent)
  obtain s2' where l2: "login_resume 2500 ?t2 (JInt 3602000) Rejected ?s0 = Inr s2'"
    and e2: "rerender 2500 s2' = ?s2"
    using r2 by (cases "login_resume 2500 ?t2 (JInt 3602000) Rejected ?s0") simp_all
  have reach2: "reachable ?s2"
    using reachable.login_settled [OF r0 b2 l2] by (simp only: e2)
  obtain s3' where l3: "login_resume 3000 ?t1 (JInt 3601000) Rejected ?s2 = Inr s3'"
    and e3: "rerender 3000 s3' = ?s3"
    using r3 by (cases "login_resume 3000 ?t1 (JInt 3601000) Rejected ?s2") simp_all
  have reach3: "reachable ?s3"
    using reachable.login_settled [OF reach2 b1 l3] by (simp only: e3)
  show ?thesis
    by (intro conjI) (rule b1 b2 r2 r3 reach3)+
qed

subsection \<open>C9: a failed profile request\<close>

text \<open>
  Claim C9: when \<^verbatim>\<open>login({ token })\<close> is called and the profile request fails, the call
  still ends authenticated, with a session that has the given token and no role; the
  failure is not propagated. Proved for every state, every truthy token and every
  clock reading at which the request is rejected before the session's own expiry (one
  hour after the call): the call returns normally, \<^verbatim>\<open>user\<close> is
  \<^verbatim>\<open>{ token, expiresAt }\<close> with the default expiry, its \<^verbatim>\<open>role\<close> is \<^verbatim>\<open>undefined\<close>, and
  the store holds that session.
\<close>

theorem failed_enrichment_is_swallowed:
  assumes "truthy token" and "now' < computeExpiry now default_window"
  shows "\<exists>s'. login_call now now' (JObj [(''token'', token)]) Rejected s = Inr s'
           \<and> user s' = JObj [(''token'', token),
                              (''expiresAt'', JInt (computeExpiry now default_window))]
           \<and> get_prop (user s') ''token'' = token
           \<and> get_prop (user s') ''role'' = JUndefined
           \<and> storage s' = Some (JsonText (jsonify (user s')))"
proof -
  let ?e = "JInt (computeExpiry now default_window)"
  let ?t = "JObj [(''token'', token), (''expiresAt'', ?e)]"
  have b: "login_begin now (JObj [(''token'', token)]) s = Awaiting ?t ?e"
    using assms(1)
    by (simp add: login_begin_def login_toStore_def login_expiresAt_def copy_props_def
        get_prop_JObj js_or_def)
  have n: "\<not> (truthy ?e \<and> num_ge (Num now') (to_number ?e))"
    using assms(2) by simp
  have f: "enrich ?t Rejected = Inl NetworkError"
    using assms(1) by (simp add: enrich_def fetchCurrentUser_def get_prop_JObj)
  from settled_session [OF b n, of Rejected s] f
  show ?thesis
    by (auto simp add: login_call_def b get_prop_JObj)
qed

text \<open>
  The theorem on \<^verbatim>\<open>login({ token: "t1" })\<close> at 1000, in the state right after mounting
  on an empty store, with the profile request rejected at 1500.
\<close>

theorem failed_enrichment_is_swallowed_witness:
  "truthy (JStr ''t1'') \<and> 1500 < computeExpiry 1000 default_window
   \<and> (\<exists>s'. login_call 1000 1500 (JObj [(''token'', JStr ''t1'')]) Rejected
              (unauthenticated None) = Inr s'
          \<and> user s' = JObj [(''token'', JStr ''t1''), (''expiresAt'', JInt 3601000)]
          \<and> get_prop (user s') ''role'' = JUndefined)"
proof -
  have t: "truthy (JStr ''t1'')" by simp
  have l: "1500 < computeExpiry 1000 default_window"
    by (simp add: computeExpiry_def default_window_def)
  have c: "computeExpiry 1000 default_window = 3601000"
    by (simp add: computeExpiry_def default_window_def)
  from failed_enrichment_is_swallowed [OF t l, of "unauthenticated None"] t l
  show ?thesis by (auto simp add: c)
qed

subsection \<open>C10: a normalised user has a role\<close>

text \<open>
  Claim C10: for every raw user that is an object, the user made by \<^verbatim>\<open>normalizeUser\<close>,
  and so the user returned by \<^verbatim>\<open>loginUser\<close> and \<^verbatim>\<open>fetchCurrentUser\<close>, has a role, which
  is \<^verbatim>\<open>"user"\<close> when the raw object carries none, and has as its \<^verbatim>\<open>id\<close> the first present
  of \<^verbatim>\<open>id\<close>, \<^verbatim>\<open>_id\<close> and \<^verbatim>\<open>userId\<close>. The program coalesces with \<^verbatim>\<open>||\<close>, so a value is
  present when it is truthy. Proved for every value that passes the guard of
  \<^verbatim>\<open>normalizeUser\<close>: the role of the result is truthy, is the raw role when that is
  truthy and \<^verbatim>\<open>"user"\<close> otherwise; the \<^verbatim>\<open>id\<close> is the first truthy one of the three, and
  \<^verbatim>\<open>undefined\<close> when there is none; \<^verbatim>\<open>loginUser\<close> on \<^verbatim>\<open>{ user: raw, token }\<close> and
  \<^verbatim>\<open>fetchCurrentUser\<close> on \<^verbatim>\<open>{ user: raw }\<close>, or on \<^verbatim>\<open>raw\<close> itself when it has no truthy
  property \<^verbatim>\<open>user\<close>, return that normalised user.
\<close>

theorem normalized_user_has_role:
  assumes "is_object raw"
  shows "truthy (get_prop (normalizeUser raw) ''role'')
       \<and> get_prop (normalizeUser raw) ''role'' =
           (if truthy (get_prop raw ''role'') then get_prop raw ''role'' else JStr ''user'')
       \<and> get_prop (normalizeUser raw) ''id'' =
           (if truthy (get_prop raw ''id'') then get_prop raw ''id''
            else if truthy (get_prop raw ''_id'') then get_prop raw ''_id''
            else if truthy (get_prop raw ''userId'') then get_prop raw ''userId''
            else JUndefined)
       \<and> (truthy token \<longrightarrow>
            loginUser (Fulfilled (JObj [(''user'', raw), (''token'', token)]))
              = Inr (JObj [(''user'', normalizeUser raw), (''token'', token)])
          \<and> fetchCurrentUser token (Fulfilled (JObj [(''user'', raw)])) = Inr (normalizeUser raw)
          \<and> (\<not> truthy (get_prop raw ''user'')
               \<longrightarrow> fetchCurrentUser token (Fulfilled raw) = Inr (normalizeUser raw)))"
proof -
  note n = normalizeUser_object [OF assms]
  have raw: "truthy raw" "raw \<noteq> JNull" "raw \<noteq> JUndefined"
    using assms by (auto simp add: is_object_def)
  have 1: "truthy (get_prop (normalizeUser raw) ''role'')" by (simp add: n(2))
  have 2: "get_prop (normalizeUser raw) ''role'' =
           (if truthy (get_prop raw ''role'') then get_prop raw ''role'' else JStr ''user'')"
    by (simp add: n(2) js_or_def)
  have 4: "get_prop (normalizeUser raw) ''id'' =
           (if truthy (get_prop raw ''id'') then get_prop raw ''id''
            else if truthy (get_prop raw ''_id'') then get_prop raw ''_id''
            else if truthy (get_prop raw ''userId'') then get_prop raw ''userId''
            else JUndefined)"
    by (simp add: n(3) js_or_def)
  have 5: "loginUser (Fulfilled (JObj [(''user'', raw), (''token'', token)]))
              = Inr (JObj [(''user'', normalizeUser raw), (''token'', token)])" if "truthy token"
    using that raw by (simp add: loginUser_def Let_def get_prop_JObj)
  have 6: "fetchCurrentUser token (Fulfilled (JObj [(''user'', raw)])) = Inr (normalizeUser raw)"
    if "truthy token"
    using that raw by (simp add: fetchCurrentUser_def get_prop_JObj js_or_def)
  have 7: "fetchCurrentUser token (Fulfilled raw) = Inr (normalizeUser raw)"
    if "truthy token" "\<not> truthy (get_prop raw ''user'')"
    using that raw by (simp add: fetchCurrentUser_def js_or_def opt_prop_def)
  from 1 2 4 5 6 7 show ?thesis by blast
qed

text \<open>
  The theorem on the raw user \<^verbatim>\<open>{ _id: "a1", name: "bob" }\<close>, which carries no role,
  with the token \<^verbatim>\<open>"jwt"\<close>.
\<close>

theorem normalized_user_has_role_witness:
  "is_object (JObj [(''_id'', JStr ''a1''), (''name'', JStr ''bob'')])
   \<and> truthy (JStr ''jwt'')
   \<and> get_prop (normalizeUser (JObj [(''_id'', JStr ''a1''), (''name'', JStr ''bob'')])) ''role''
       = JStr ''user''
   \<and> get_prop (normalizeUser (JObj [(''_id'', JStr ''a1''), (''name'', JStr ''bob'')])) ''id''
       = JStr ''a1''
   \<and> loginUser (Fulfilled (JObj [(''user'', JObj [(''_id'', JStr ''a1''), (''name'', JStr ''bob'')]),
                                  (''token'', JStr ''jwt'')]))
       = Inr (JObj [(''user'',
                     normalizeUser (JObj [(''_id'', JStr ''a1''), (''name'', JStr ''bob'')])),
                    (''token'', JStr ''jwt'')])
   \<and> fetchCurrentUser (JStr ''jwt'')
        (Fulfilled (JObj [(''_id'', JStr ''a1''), (''name'', JStr ''bob'')]))
       = Inr (normalizeUser (JObj [(''_id'', JStr ''a1''), (''name'', JStr ''bob'')]))"
proof -
  let ?raw = "JObj [(''_id'', JStr ''a1''), (''name'', JStr ''bob'')]"
  have o: "is_object ?raw" by (simp add: is_object_def)
  have t: "truthy (JStr ''jwt'')" by simp
  have g: "get_prop ?raw ''role'' = JUndefined" "get_prop ?raw ''id'' = JUndefined"
    "get_prop ?raw ''_id'' = JStr ''a1''" "get_prop ?raw ''user'' = JUndefined"
    by code_simp+
  from normalized_user_has_role [OF o, of "JStr ''jwt''"] o t g
  show ?thesis by simp
qed

end
